theory Spec2Isabelle
  imports Complex_Main
begin

section \<open>Strings of the program\<close>

text \<open>
  A JavaScript string is a sequence of UTF-16 code units; \<open>.length\<close> counts them.
  A code unit is modelled by its number, a string by the list of its code units.
  \<open>js\<close> turns an ASCII literal into such a string.
\<close>

type_synonym jschar = nat
type_synonym jsstring = "nat list"

definition js :: "string \<Rightarrow> jsstring" where
  "js s = map of_char s"

fun in_ranges :: "jschar \<Rightarrow> (nat \<times> nat) list \<Rightarrow> bool" where
  "in_ranges c [] = False"
| "in_ranges c ((lo, hi) # rs) = ((lo \<le> c \<and> c \<le> hi) \<or> in_ranges c rs)"

text \<open>
  The code units that \<open>\s\<close> matches and that \<open>trim\<close> strips (ECMAScript's WhiteSpace and
  LineTerminator), the decimal digits of \<open>\d\<close>, and the line terminators that \<open>.\<close> refuses.
\<close>

definition ws_ranges :: "(nat \<times> nat) list" where
  "ws_ranges = [(9, 13), (32, 32), (160, 160), (5760, 5760), (8192, 8202), (8232, 8233),
     (8239, 8239), (8287, 8287), (12288, 12288), (65279, 65279)]"

definition digit_ranges :: "(nat \<times> nat) list" where
  "digit_ranges = [(48, 57)]"

definition newline_ranges :: "(nat \<times> nat) list" where
  "newline_ranges = [(10, 10), (13, 13), (8232, 8233)]"

definition is_ws :: "jschar \<Rightarrow> bool" where
  "is_ws c = in_ranges c ws_ranges"

definition is_digit :: "jschar \<Rightarrow> bool" where
  "is_digit c = in_ranges c digit_ranges"

section \<open>Regular expressions\<close>

text \<open>
  The constructs the program's patterns are written with. A character set is a list of
  code-unit ranges, or the complement of one. A quantifier over a single character set is
  \<open>Repeat greedy min max set\<close> (\<open>max = None\<close> for no upper bound); \<open>Maybe r\<close> is \<open>(?:r)?\<close>;
  \<open>Capture i r\<close> is the i-th parenthesised group; \<open>Lookahead r\<close> is \<open>(?=r)\<close>;
  \<open>EndOfInput\<close> is \<open>$\<close> without the multiline flag.
\<close>

datatype cset = Pos "(nat \<times> nat) list" | Neg "(nat \<times> nat) list"

fun member_cs :: "cset \<Rightarrow> jschar \<Rightarrow> bool" where
  "member_cs (Pos rs) c = in_ranges c rs"
| "member_cs (Neg rs) c = (\<not> in_ranges c rs)"

datatype regex =
    Empty
  | Chars cset
  | Then regex regex
  | Or regex regex
  | Repeat bool nat "nat option" cset
  | Maybe regex
  | Capture nat regex
  | Lookahead regex
  | EndOfInput

text \<open>
  The backtracking matcher. A state is the input still to read and the captures made so
  far. \<open>matches r s\<close> lists, in the order in which a backtracking engine tries them, the
  states in which \<open>r\<close> can end when started in \<open>s\<close>; the engine's answer is the head.
\<close>

type_synonym captures = "nat \<Rightarrow> jsstring option"
type_synonym mstate = "jsstring \<times> captures"

fun repeat_cs :: "bool \<Rightarrow> nat \<Rightarrow> nat option \<Rightarrow> cset \<Rightarrow> jsstring \<Rightarrow> jsstring list" where
  "repeat_cs g lo hi cs [] = (if lo = 0 then [[]] else [])"
| "repeat_cs g lo hi cs (c # r) =
     (let stop = (if lo = 0 then [c # r] else []);
          more = (if hi \<noteq> Some 0 \<and> member_cs cs c
                  then repeat_cs g (lo - 1) (map_option (\<lambda>h. h - 1) hi) cs r else [])
      in if g then more @ stop else stop @ more)"

fun matches :: "regex \<Rightarrow> mstate \<Rightarrow> mstate list" where
  "matches Empty s = [s]"
| "matches (Chars cs) (r, k) =
     (case r of [] \<Rightarrow> [] | c # r' \<Rightarrow> if member_cs cs c then [(r', k)] else [])"
| "matches (Then a b) s = concat (map (\<lambda>s'. matches b s') (matches a s))"
| "matches (Or a b) s = matches a s @ matches b s"
| "matches (Repeat g lo hi cs) (r, k) = map (\<lambda>r'. (r', k)) (repeat_cs g lo hi cs r)"
| "matches (Maybe a) (r, k) =
     filter (\<lambda>s'. length (fst s') \<noteq> length r) (matches a (r, k)) @ [(r, k)]"
| "matches (Capture i a) (r, k) =
     map (\<lambda>(r', k'). (r', k'(i \<mapsto> take (length r - length r') r))) (matches a (r, k))"
| "matches (Lookahead a) (r, k) =
     (case matches a (r, k) of [] \<Rightarrow> [] | (r', k') # _ \<Rightarrow> [(r, k')])"
| "matches EndOfInput (r, k) = (if r = [] then [(r, k)] else [])"

text \<open>
  \<open>String.prototype.match\<close> and \<open>RegExp.prototype.test\<close> without the global flag: the
  start positions are tried from left to right, and at the first position where the
  pattern can match, the engine's first way of matching it is the result. \<open>search\<close>
  returns the input left after the match together with the captures.
\<close>

fun search :: "regex \<Rightarrow> jsstring \<Rightarrow> mstate option" where
  "search r [] = (case matches r ([], Map.empty) of [] \<Rightarrow> None | s # _ \<Rightarrow> Some s)"
| "search r (c # cs) =
     (case matches r (c # cs, Map.empty) of [] \<Rightarrow> search r cs | s # _ \<Rightarrow> Some s)"

definition test :: "regex \<Rightarrow> jsstring \<Rightarrow> bool" where
  "test r s = (search r s \<noteq> None)"

text \<open>
  \<open>matched_text r s\<close> is the matched text \<open>m[0]\<close> of \<open>s.match(r)\<close>: the input from the start
  of the match up to where the match ends.
\<close>

fun matched_text :: "regex \<Rightarrow> jsstring \<Rightarrow> jsstring option" where
  "matched_text r [] = (case matches r ([], Map.empty) of [] \<Rightarrow> None | s # _ \<Rightarrow> Some [])"
| "matched_text r (c # cs) =
     (case matches r (c # cs, Map.empty) of
        [] \<Rightarrow> matched_text r cs
      | s # _ \<Rightarrow> Some (take (length (c # cs) - length (fst s)) (c # cs)))"

text \<open>
  \<open>s.replace(r, t)\<close> with the global flag, for a replacement template made of literal
  text and group references (\<open>$n\<close>; a group that did not take part gives the empty
  string). The input is read from left to right; \<open>skip\<close> counts the code units of the
  current match still to pass over. After a match the search resumes where the match
  ended, and after an empty match one code unit is copied.
\<close>

datatype piece = Lit jsstring | Group nat

fun expand :: "piece list \<Rightarrow> captures \<Rightarrow> jsstring" where
  "expand [] k = []"
| "expand (Lit t # ps) k = t @ expand ps k"
| "expand (Group i # ps) k = (case k i of None \<Rightarrow> [] | Some g \<Rightarrow> g) @ expand ps k"

fun replace_from :: "regex \<Rightarrow> piece list \<Rightarrow> nat \<Rightarrow> jsstring \<Rightarrow> jsstring" where
  "replace_from r t skip [] =
     (if skip = 0 then (case matches r ([], Map.empty) of [] \<Rightarrow> [] | (_, k) # _ \<Rightarrow> expand t k)
      else [])"
| "replace_from r t skip (c # cs) =
     (if skip = 0 then
        (case matches r (c # cs, Map.empty) of
           [] \<Rightarrow> c # replace_from r t 0 cs
         | (rest, k) # _ \<Rightarrow>
             (if length rest = length (c # cs) then expand t k @ c # replace_from r t 0 cs
              else expand t k @ replace_from r t (length cs - length rest) cs))
      else replace_from r t (skip - 1) cs)"

definition replace_all :: "regex \<Rightarrow> piece list \<Rightarrow> jsstring \<Rightarrow> jsstring" where
  "replace_all r t s = replace_from r t 0 s"

text \<open>Pattern building blocks: a sequence, a literal text, and a literal under the \<open>i\<close> flag.\<close>

fun seq :: "regex list \<Rightarrow> regex" where
  "seq [] = Empty"
| "seq [r] = r"
| "seq (r # rs) = Then r (seq rs)"

definition ch :: "jschar \<Rightarrow> regex" where
  "ch c = Chars (Pos [(c, c)])"

text \<open>
  Under the \<open>i\<close> flag a pattern character matches the code units with the same
  canonical (upper-case) form. For an ASCII letter these are its two cases and for any
  other ASCII character the character itself: ECMAScript's Canonicalize never maps a
  code unit above 127 to one below 128.
\<close>

definition other_case :: "jschar \<Rightarrow> jschar" where
  "other_case c = (if 65 \<le> c \<and> c \<le> 90 then c + 32 else if 97 \<le> c \<and> c \<le> 122 then c - 32 else c)"

definition ch_i :: "jschar \<Rightarrow> regex" where
  "ch_i c = Chars (Pos [(c, c), (other_case c, other_case c)])"

definition lit :: "jsstring \<Rightarrow> regex" where
  "lit s = seq (map ch s)"

definition lit_i :: "jsstring \<Rightarrow> regex" where
  "lit_i s = seq (map ch_i s)"

section \<open>String helpers\<close>

text \<open>\<open>String.prototype.trim\<close>.\<close>

definition trim :: "jsstring \<Rightarrow> jsstring" where
  "trim s = rev (dropWhile is_ws (rev (dropWhile is_ws s)))"

text \<open>
  \<open>toUpperCase\<close> and \<open>toLowerCase\<close> on the ASCII letters. The program applies them to a
  captured hemisphere letter and to text that is then searched for an ASCII phrase.
\<close>

definition to_upper :: "jsstring \<Rightarrow> jsstring" where
  "to_upper s = map (\<lambda>c. if 97 \<le> c \<and> c \<le> 122 then c - 32 else c) s"

definition to_lower :: "jsstring \<Rightarrow> jsstring" where
  "to_lower s = map (\<lambda>c. if 65 \<le> c \<and> c \<le> 90 then c + 32 else c) s"

fun starts_with :: "jsstring \<Rightarrow> jsstring \<Rightarrow> bool" where
  "starts_with s [] = True"
| "starts_with [] (p # ps) = False"
| "starts_with (c # cs) (p # ps) = (c = p \<and> starts_with cs ps)"

text \<open>\<open>String.prototype.includes\<close>.\<close>

fun includes_str :: "jsstring \<Rightarrow> jsstring \<Rightarrow> bool" where
  "includes_str [] p = (p = [])"
| "includes_str (c # cs) p = (starts_with (c # cs) p \<or> includes_str cs p)"

text \<open>\<open>s.split(sep)\<close> for a separator of one code unit.\<close>

fun split_char :: "jschar \<Rightarrow> jsstring \<Rightarrow> jsstring list" where
  "split_char sep [] = [[]]"
| "split_char sep (c # cs) =
     (if c = sep then [] # split_char sep cs
      else (case split_char sep cs of [] \<Rightarrow> [[c]] | p # ps \<Rightarrow> (c # p) # ps))"

text \<open>\<open>parts.join(sep)\<close>.\<close>

fun join :: "jsstring \<Rightarrow> jsstring list \<Rightarrow> jsstring" where
  "join sep [] = []"
| "join sep [p] = p"
| "join sep (p # ps) = p @ sep @ join sep ps"

section \<open>Numbers\<close>

text \<open>
  A JavaScript number is modelled as an exact rational or \<open>NaN\<close>; the rounding of IEEE
  doubles is not modelled. \<open>parseFloat\<close> reads the longest prefix that is a decimal
  literal with an optional sign, and \<open>Number\<close> wants the whole string to be one. Exponents,
  \<open>Infinity\<close> and hexadecimal literals are left out: the program converts only text captured
  by its coordinate patterns, which is made of a sign, digits and a point.
\<close>

datatype jsnum = NaN | Num rat

definition digits_value :: "jsstring \<Rightarrow> nat" where
  "digits_value ds = foldl (\<lambda>a c. 10 * a + (c - 48)) 0 ds"

definition parseFloat :: "jsstring \<Rightarrow> jsnum" where
  "parseFloat s =
     (let t = dropWhile is_ws s;
          neg = (case t of [] \<Rightarrow> False | c # _ \<Rightarrow> c = 45);
          u = (case t of [] \<Rightarrow> [] | c # r \<Rightarrow> if c = 45 \<or> c = 43 then r else t);
          ip = takeWhile is_digit u;
          fp = (case dropWhile is_digit u of
                  [] \<Rightarrow> [] | c # r \<Rightarrow> if c = 46 then takeWhile is_digit r else [])
      in if ip = [] \<and> fp = [] then NaN
         else Num ((if neg then - 1 else 1) *
                (of_nat (digits_value ip) + of_nat (digits_value fp) / 10 ^ length fp)))"

definition is_decimal_literal :: "jsstring \<Rightarrow> bool" where
  "is_decimal_literal t =
     (let u = (case t of [] \<Rightarrow> [] | c # r \<Rightarrow> if c = 45 \<or> c = 43 then r else t);
          ip = takeWhile is_digit u;
          v = dropWhile is_digit u
      in case v of
           [] \<Rightarrow> ip \<noteq> []
         | c # r \<Rightarrow> c = 46 \<and> dropWhile is_digit r = [] \<and> (ip \<noteq> [] \<or> r \<noteq> []))"

definition Number :: "jsstring option \<Rightarrow> jsnum" where
  "Number v =
     (case v of
        None \<Rightarrow> NaN
      | Some s \<Rightarrow>
          (let t = trim s
           in if t = [] then Num 0 else if is_decimal_literal t then parseFloat t else NaN))"

text \<open>\<open>Number(g || 0)\<close> for a captured group \<open>g\<close>: an undefined or empty group counts 0.\<close>

definition Number_or_0 :: "jsstring option \<Rightarrow> jsnum" where
  "Number_or_0 v = (case v of None \<Rightarrow> Num 0 | Some s \<Rightarrow> if s = [] then Num 0 else Number (Some s))"

text \<open>Arithmetic, with \<open>NaN\<close> absorbing.\<close>

fun num_add :: "jsnum \<Rightarrow> jsnum \<Rightarrow> jsnum" where
  "num_add (Num a) (Num b) = Num (a + b)"
| "num_add _ _ = NaN"

fun num_mul :: "jsnum \<Rightarrow> jsnum \<Rightarrow> jsnum" where
  "num_mul (Num a) (Num b) = Num (a * b)"
| "num_mul _ _ = NaN"

text \<open>Division by a constant other than zero, the only division the program does.\<close>

fun num_div :: "jsnum \<Rightarrow> rat \<Rightarrow> jsnum" where
  "num_div (Num a) d = Num (a / d)"
| "num_div NaN d = NaN"

section \<open>tryParseCoordinates\<close>

text \<open>
  The decimal pattern \<open>(-?\d{1,3}\.\d+)\s*[,\s]\s*(-?\d{1,3}\.\d+)\<close>.
\<close>

definition decNumber :: regex where
  "decNumber = seq [Repeat True 0 (Some 1) (Pos [(45, 45)]),
                    Repeat True 1 (Some 3) (Pos digit_ranges),
                    ch 46,
                    Repeat True 1 None (Pos digit_ranges)]"

definition decPattern :: regex where
  "decPattern = seq [Capture 1 decNumber,
                     Repeat True 0 None (Pos ws_ranges),
                     Chars (Pos ((44, 44) # ws_ranges)),
                     Repeat True 0 None (Pos ws_ranges),
                     Capture 2 decNumber]"

text \<open>
  The degrees-minutes-seconds pattern, one axis of it being
  \<open>(\d{1,3})[D\s]+(\d{1,2})[P']\s*(\d{1,2}(?:\.\d+)?)?[Q"]?\s*([NnSs])\<close>, where \<open>D\<close> stands
  for the degree sign U+00B0, \<open>P\<close> for the prime U+2032 and \<open>Q\<close> for the double prime
  U+2033; the two axes are joined by \<open>\s*,?\s*\<close>, and the second axis ends in \<open>([EeWw])\<close>.
\<close>

definition dmsAxis :: "nat \<Rightarrow> (nat \<times> nat) list \<Rightarrow> regex" where
  "dmsAxis g hemi =
     seq [Capture g (Repeat True 1 (Some 3) (Pos digit_ranges)),
          Repeat True 1 None (Pos ((176, 176) # ws_ranges)),
          Capture (g + 1) (Repeat True 1 (Some 2) (Pos digit_ranges)),
          Chars (Pos [(8242, 8242), (39, 39)]),
          Repeat True 0 None (Pos ws_ranges),
          Maybe (Capture (g + 2)
            (Then (Repeat True 1 (Some 2) (Pos digit_ranges))
                  (Maybe (Then (ch 46) (Repeat True 1 None (Pos digit_ranges)))))),
          Repeat True 0 (Some 1) (Pos [(8243, 8243), (34, 34)]),
          Repeat True 0 None (Pos ws_ranges),
          Capture (g + 3) (Chars (Pos hemi))]"

definition dmsPattern :: regex where
  "dmsPattern =
     seq [dmsAxis 1 [(78, 78), (110, 110), (83, 83), (115, 115)],
          Repeat True 0 None (Pos ws_ranges),
          Repeat True 0 (Some 1) (Pos [(44, 44)]),
          Repeat True 0 None (Pos ws_ranges),
          dmsAxis 5 [(69, 69), (101, 101), (87, 87), (119, 119)]]"

datatype coords = Coords (coords_latitude: jsnum) (coords_longitude: jsnum)

text \<open>
  One axis of the conversion:
  \<open>(deg + min / 60 + sec / 3600) * (hem === negative ? -1 : 1)\<close>, on the captures.
  Groups \<open>g + 3\<close> (the hemisphere letter) is not optional in the pattern; an undefined one
  is read as the empty string.
\<close>

definition dmsValue :: "captures \<Rightarrow> nat \<Rightarrow> jsstring \<Rightarrow> jsnum" where
  "dmsValue k g negative =
     (let deg = Number (k g);
          mins = Number_or_0 (k (g + 1));
          sec = Number_or_0 (k (g + 2));
          hem = to_upper (case k (g + 3) of None \<Rightarrow> [] | Some h \<Rightarrow> h)
      in num_mul (num_add (num_add deg (num_div mins 60)) (num_div sec 3600))
           (if hem = negative then Num (- 1) else Num 1))"

definition tryParseCoordinates :: "jsstring \<Rightarrow> coords option" where
  "tryParseCoordinates text =
     (let dec = (case search decPattern text of
                   None \<Rightarrow> None
                 | Some (_, k) \<Rightarrow>
                     (let lat = parseFloat (case k 1 of None \<Rightarrow> [] | Some g \<Rightarrow> g);
                          lon = parseFloat (case k 2 of None \<Rightarrow> [] | Some g \<Rightarrow> g)
                      in if lat \<noteq> NaN \<and> lon \<noteq> NaN then Some (Coords lat lon) else None))
      in case dec of
           Some c \<Rightarrow> Some c
         | None \<Rightarrow>
             (case search dmsPattern text of
                None \<Rightarrow> None
              | Some (_, k) \<Rightarrow> Some (Coords (dmsValue k 1 (js ''S'')) (dmsValue k 5 (js ''W'')))))"

section \<open>extractPossibleLocationsFromText\<close>

text \<open>
  \<open>s.split(r)\<close> for a pattern without groups. The input is read from left to right;
  \<open>piece\<close> is the text since the last separator, \<open>skip\<close> counts the code units of the
  current separator still to pass over. An empty match right after the last separator does
  not split.
\<close>

fun split_from :: "regex \<Rightarrow> nat \<Rightarrow> jsstring \<Rightarrow> jsstring \<Rightarrow> jsstring list" where
  "split_from r skip piece [] = [piece]"
| "split_from r skip piece (c # cs) =
     (if skip = 0 then
        (case matches r (c # cs, Map.empty) of
           [] \<Rightarrow> split_from r 0 (piece @ [c]) cs
         | (rest, k) # _ \<Rightarrow>
             (if length rest = length (c # cs)
              then (if piece = [] then split_from r 0 [c] cs else piece # split_from r 0 [c] cs)
              else piece # split_from r (length cs - length rest) [] cs))
      else split_from r (skip - 1) piece cs)"

definition split_regex :: "regex \<Rightarrow> jsstring \<Rightarrow> jsstring list" where
  "split_regex r s =
     (if s = [] then (if matches r ([], Map.empty) = [] then [[]] else [])
      else split_from r 0 [] s)"

text \<open>
  The separators \<open>[\n;ME-]+\<close>, where \<open>M\<close> stands for the em dash U+2014 and \<open>E\<close> for the
  en dash U+2013: a run of line feeds, semicolons, dashes and hyphens.
\<close>

definition separators :: regex where
  "separators = Repeat True 1 None (Pos [(10, 10), (59, 59), (8212, 8212), (8211, 8211), (45, 45)])"

definition extractPossibleLocationsFromText :: "jsstring \<Rightarrow> jsstring list" where
  "extractPossibleLocationsFromText text =
     filter (\<lambda>s. s \<noteq> []) (map trim (split_regex separators text))"

section \<open>findFilmingLocationsFromWikiWikitext\<close>

text \<open>
  The section pattern \<open>/(?:(==+\s*Filming locations\s*==+)[\s\S]*?)(?==+)/i\<close>; \<open>[\s\S]\<close> is
  the set of all code units.
\<close>

definition sectionPattern :: regex where
  "sectionPattern =
     seq [Capture 1 (seq [ch 61, Repeat True 1 None (Pos [(61, 61)]),
                          Repeat True 0 None (Pos ws_ranges),
                          lit_i (js ''Filming locations''),
                          Repeat True 0 None (Pos ws_ranges),
                          ch 61, Repeat True 1 None (Pos [(61, 61)])]),
          Repeat False 0 None (Neg []),
          Lookahead (Repeat True 1 None (Pos [(61, 61)]))]"

text \<open>
  The four cleanup passes: three apostrophes (code unit 39), \<open>/\{\{.*?\}\}/g\<close> and
  \<open>/\[http[^\]]+\]/g\<close> are replaced by the empty string, then
  \<open>/\[\[([^\]|]+)(?:\|([^\]]+))?\]\]/g\<close> is replaced by \<open>$2$1\<close>.
\<close>

definition boldPattern :: regex where
  "boldPattern = lit [39, 39, 39]"

definition templatePattern :: regex where
  "templatePattern = seq [ch 123, ch 123, Repeat False 0 None (Neg newline_ranges), ch 125, ch 125]"

definition externalLinkPattern :: regex where
  "externalLinkPattern = seq [ch 91, lit (js ''http''), Repeat True 1 None (Neg [(93, 93)]), ch 93]"

definition internalLinkPattern :: regex where
  "internalLinkPattern =
     seq [ch 91, ch 91,
          Capture 1 (Repeat True 1 None (Neg [(93, 93), (124, 124)])),
          Maybe (Then (ch 124) (Capture 2 (Repeat True 1 None (Neg [(93, 93)])))),
          ch 93, ch 93]"

definition cleanup :: "jsstring \<Rightarrow> jsstring" where
  "cleanup section =
     replace_all internalLinkPattern [Group 2, Group 1]
       (replace_all externalLinkPattern []
         (replace_all templatePattern []
           (replace_all boldPattern [] section)))"

text \<open>
  The argument is \<open>None\<close> for \<open>null\<close> or \<open>undefined\<close>; these and the empty string are the
  values for which \<open>!wikitext\<close> holds.
\<close>

definition findFilmingLocationsFromWikiWikitext :: "jsstring option \<Rightarrow> jsstring list" where
  "findFilmingLocationsFromWikiWikitext wikitext =
     (case wikitext of
        None \<Rightarrow> []
      | Some w \<Rightarrow>
          if w = [] then []
          else (case matched_text sectionPattern w of
                  None \<Rightarrow> []
                | Some section \<Rightarrow>
                    (let cleaned = cleanup section;
                         lines = filter (\<lambda>l. l \<noteq> []) (map trim (split_char 10 cleaned));
                         hits = take 200 (filter (\<lambda>l. length l > 5 \<and> length l < 400) lines)
                     in hits)))"

section \<open>extractFromCheerio\<close>

text \<open>
  The actor's input: the two options the extraction reads or is meant to read.
\<close>

record input =
  useWikipediaApi :: bool
  validateCoordinates :: bool

text \<open>
  What the handler reads of a page through Cheerio and the network:
  \<^item> \<open>url\<close>: \<open>request.loadedUrl ?? request.url\<close>;
  \<^item> \<open>title\<close>: the result of the title heuristics;
  \<^item> \<open>headings\<close>: the elements matching \<open>h2, h3, h4\<close> in document order, each with its text
    and the chain of its following siblings (tag name and text);
  \<^item> \<open>hasFilmingLocations\<close>: whether an element with id \<open>filmingLocations\<close> exists;
  \<^item> \<open>listItems\<close>: the texts of the elements matching
    \<open>li, .ipl-zebra-list__item, .soda, .filming-location\<close>;
  \<^item> \<open>paragraphs\<close>: the texts of the elements matching \<open>p, li, td\<close>;
  \<^item> \<open>wikitext\<close>: what \<open>fetchWikipediaWikitext(url)\<close> resolves to, \<open>None\<close> for \<open>null\<close>.
\<close>

record node =
  name :: jsstring
  node_text :: jsstring

record heading =
  heading_text :: jsstring
  siblings :: "node list"

record page =
  url :: jsstring
  title :: jsstring
  headings :: "heading list"
  hasFilmingLocations :: bool
  listItems :: "jsstring list"
  paragraphs :: "jsstring list"
  wikitext :: "jsstring option"

text \<open>
  A pushed dataset item, without \<open>extracted_at\<close> (the time of the push). \<open>None\<close> in a
  coordinate field is \<open>null\<close>.
\<close>

record location_record =
  movie_title :: jsstring
  year :: jsstring
  location_text :: jsstring
  city :: jsstring
  region :: jsstring
  country :: jsstring
  latitude :: "rat option"
  longitude :: "rat option"
  source_url :: jsstring

text \<open>The year heuristic \<open>/\b(19|20)\d{2}\b/\<close> on the title: the first match, or the empty string.\<close>

definition is_word :: "jschar \<Rightarrow> bool" where
  "is_word c = in_ranges c [(48, 57), (65, 90), (95, 95), (97, 122)]"

fun year_here :: "jsstring \<Rightarrow> bool" where
  "year_here (a # b # c # d # rest) =
     (((a = 49 \<and> b = 57) \<or> (a = 50 \<and> b = 48)) \<and> is_digit c \<and> is_digit d \<and>
      (case rest of [] \<Rightarrow> True | e # _ \<Rightarrow> \<not> is_word e))"
| "year_here _ = False"

fun find_year :: "bool \<Rightarrow> jsstring \<Rightarrow> jsstring" where
  "find_year after_word [] = []"
| "find_year after_word (c # cs) =
     (if \<not> after_word \<and> year_here (c # cs) then take 4 (c # cs) else find_year (is_word c) cs)"

text \<open>
  Strategy 1. The sibling walk after a heading: at most 200 steps, stopping at a node whose
  tag name matches \<open>/^h[1-6]$/i\<close>. The pattern starts with \<open>^\<close>, so it is tried at the
  start of the name only.
\<close>

definition headingName :: regex where
  "headingName = seq [ch_i 104, Chars (Pos [(49, 54)]), EndOfInput]"

definition is_heading_name :: "jsstring \<Rightarrow> bool" where
  "is_heading_name n = (matches headingName (n, Map.empty) \<noteq> [])"

fun gather :: "node list \<Rightarrow> nat \<Rightarrow> jsstring \<Rightarrow> jsstring" where
  "gather [] steps gathered = gathered"
| "gather (n # ns) steps gathered =
     (if steps < 200 then
        (if is_heading_name (name n) then gathered
         else gather ns (steps + 1) (gathered @ [10] @ node_text n))
      else gathered)"

definition heading_locations :: "heading \<Rightarrow> jsstring list" where
  "heading_locations h =
     (let gathered = gather (siblings h) 0 []
      in if trim gathered \<noteq> [] then extractPossibleLocationsFromText gathered else [])"

definition dom_strategy :: "page \<Rightarrow> jsstring list" where
  "dom_strategy p =
     concat (map heading_locations
       (filter (\<lambda>h. includes_str (to_lower (heading_text h)) (js ''filming location''))
          (headings p)))"

text \<open>
  Strategy 2, for a URL matching \<open>/imdb\.com\/title\/.+\/locations/i\<close> or a page that has
  the \<open>filmingLocations\<close> element while nothing was found yet.
\<close>

definition imdbUrl :: regex where
  "imdbUrl = seq [lit_i (js ''imdb.com/title/''), Repeat True 1 None (Neg newline_ranges),
                  lit_i (js ''/locations'')]"

definition layout_strategy :: "page \<Rightarrow> jsstring list \<Rightarrow> jsstring list" where
  "layout_strategy p locations =
     (if test imdbUrl (url p) \<or> (hasFilmingLocations p \<and> locations = [])
      then locations @ filter (\<lambda>s. s \<noteq> []) (map trim (listItems p))
      else locations)"

text \<open>
  Strategy 3, only when nothing was found:
  \<open>/filming location|filming locations|locations used|location(s)?/i\<close>.
\<close>

definition fallbackPattern :: regex where
  "fallbackPattern =
     Or (lit_i (js ''filming location''))
       (Or (lit_i (js ''filming locations''))
         (Or (lit_i (js ''locations used''))
             (Then (lit_i (js ''location'')) (Maybe (Capture 1 (ch_i 115))))))"

definition fallbackMatches :: "page \<Rightarrow> jsstring list" where
  "fallbackMatches p = filter (test fallbackPattern) (map trim (paragraphs p))"

definition fallback_strategy :: "page \<Rightarrow> jsstring list \<Rightarrow> jsstring list" where
  "fallback_strategy p locations =
     (if locations = [] then locations @ fallbackMatches p else locations)"

text \<open>Strategy 4: the lines of the raw wikitext are put in front.\<close>

definition wikiLocations :: "page \<Rightarrow> jsstring list" where
  "wikiLocations p = findFilmingLocationsFromWikiWikitext (wikitext p)"

definition wiki_strategy :: "input \<Rightarrow> page \<Rightarrow> jsstring list \<Rightarrow> jsstring list" where
  "wiki_strategy inp p locations =
     (if useWikipediaApi inp \<and> includes_str (url p) (js ''wikipedia.org'') then
        (case wikitext p of
           None \<Rightarrow> locations
         | Some w \<Rightarrow>
             if w = [] then locations
             else if wikiLocations p \<noteq> [] then wikiLocations p @ locations
             else locations)
      else locations)"

definition candidates :: "input \<Rightarrow> page \<Rightarrow> jsstring list" where
  "candidates inp p =
     wiki_strategy inp p (fallback_strategy p (layout_strategy p (dom_strategy p)))"

text \<open>
  Normalisation and deduplication: \<open>loc.replace(/\s+/g, ' ').trim()\<close>, then the length
  and \<open>seen\<close> checks.
\<close>

definition wsRun :: regex where
  "wsRun = Repeat True 1 None (Pos ws_ranges)"

definition clean :: "jsstring \<Rightarrow> jsstring" where
  "clean loc = trim (replace_all wsRun [Lit [32]] loc)"

fun normalize_loop :: "jsstring list \<Rightarrow> jsstring set \<Rightarrow> jsstring list \<Rightarrow> jsstring list" where
  "normalize_loop [] seen normalized = normalized"
| "normalize_loop (loc # locs) seen normalized =
     (let t = clean loc
      in if t = [] \<or> length t < 3 then normalize_loop locs seen normalized
         else if t \<in> seen then normalize_loop locs seen normalized
         else normalize_loop locs (insert t seen) (normalized @ [t]))"

definition normalize :: "jsstring list \<Rightarrow> jsstring list" where
  "normalize locations = normalize_loop locations {} []"

text \<open>The city, region and country heuristics on the comma-separated parts.\<close>

definition parts_of :: "jsstring \<Rightarrow> jsstring list" where
  "parts_of locText = filter (\<lambda>s. s \<noteq> []) (map trim (split_char 44 locText))"

definition city_of :: "jsstring list \<Rightarrow> jsstring" where
  "city_of parts = (if length parts \<ge> 1 then parts ! 0 else [])"

definition region_of :: "jsstring list \<Rightarrow> jsstring" where
  "region_of parts = (if length parts \<ge> 3 then parts ! 1 else [])"

definition country_of :: "jsstring list \<Rightarrow> jsstring" where
  "country_of parts =
     (if length parts \<ge> 3 then join (js '', '') (drop 2 parts)
      else if length parts = 2 then parts ! 1 else [])"

text \<open>\<open>x || null\<close> for a coordinate of the parsed pair, \<open>None\<close> standing for no pair.\<close>

definition or_null :: "jsnum option \<Rightarrow> rat option" where
  "or_null v = (case v of None \<Rightarrow> None | Some NaN \<Rightarrow> None
                | Some (Num x) \<Rightarrow> if x = 0 then None else Some x)"

definition make_record :: "page \<Rightarrow> jsstring \<Rightarrow> location_record" where
  "make_record p locText =
     (let coords = tryParseCoordinates locText;
          parts = parts_of locText
      in \<lparr> movie_title = title p,
           year = find_year False (title p),
           location_text = locText,
           city = city_of parts,
           region = region_of parts,
           country = country_of parts,
           latitude = or_null (map_option coords_latitude coords),
           longitude = or_null (map_option coords_longitude coords),
           source_url = url p \<rparr>)"

text \<open>
  The handler's effects: the items pushed to the dataset, in order, and the
  \<open>extracted_locations\<close> of the audit value.
\<close>

definition records_of :: "page \<Rightarrow> jsstring list \<Rightarrow> location_record list" where
  "records_of p locations = map (make_record p) (take 200 (normalize locations))"

definition extractFromCheerio :: "input \<Rightarrow> page \<Rightarrow> location_record list \<times> jsstring list" where
  "extractFromCheerio inp p =
     (let locations = candidates inp p
      in (records_of p locations, take 500 (normalize locations)))"

section \<open>Notions used in the statements\<close>

text \<open>
  The list of the first occurrences of the elements of a list, in their order.
\<close>

definition first_occurrences :: "'a list \<Rightarrow> 'a list" where
  "first_occurrences xs = rev (remdups (rev xs))"

text \<open>
  A text in which white space only occurs as single spaces: every white-space code unit
  is a space and is followed by a code unit that is not white space, or by nothing.
\<close>

fun squeezed :: "jsstring \<Rightarrow> bool" where
  "squeezed [] = True"
| "squeezed (c # cs) =
     ((if is_ws c then c = 32 \<and> (case cs of [] \<Rightarrow> True | d # _ \<Rightarrow> \<not> is_ws d) else True) \<and>
      squeezed cs)"

text \<open>
  The number written with the integer digits \<open>d\<close> and the fraction digits \<open>f\<close>, and the
  factor of an optional minus sign.
\<close>

definition decimal :: "jsstring \<Rightarrow> jsstring \<Rightarrow> rat" where
  "decimal d f = of_nat (digits_value d) + of_nat (digits_value f) / 10 ^ length f"

definition sign_of :: "jsstring \<Rightarrow> rat" where
  "sign_of n = (if n = [45] then - 1 else 1)"

text \<open>
  The number that a captured group of digits, with or without a point and a fraction,
  writes; 0 for a group that took no part in the match.
\<close>

definition reading :: "jsstring option \<Rightarrow> rat" where
  "reading v =
     (case v of
        None \<Rightarrow> 0
      | Some g \<Rightarrow> decimal (takeWhile is_digit g) (drop 1 (dropWhile is_digit g)))"

text \<open>
  A captured group that is absent, or made of digits, or of digits, a point and digits.
\<close>

definition number_group :: "jsstring option \<Rightarrow> bool" where
  "number_group v =
     (case v of
        None \<Rightarrow> True
      | Some g \<Rightarrow>
          takeWhile is_digit g \<noteq> [] \<and>
          (case dropWhile is_digit g of
             [] \<Rightarrow> True
           | c # f \<Rightarrow> c = 46 \<and> f \<noteq> [] \<and> list_all is_digit f))"

text \<open>
  A text written with an optional minus sign, one to three digits, a point and at least one
  digit, and the number it writes.
\<close>

definition signed_group :: "jsstring \<Rightarrow> bool" where
  "signed_group g =
     (let u = (if take 1 g = [45] then drop 1 g else g);
          d = takeWhile is_digit u
      in 1 \<le> length d \<and> length d \<le> 3 \<and>
         (case dropWhile is_digit u of
            [] \<Rightarrow> False
          | c # f \<Rightarrow> c = 46 \<and> f \<noteq> [] \<and> list_all is_digit f))"

definition signed_reading :: "jsstring \<Rightarrow> rat" where
  "signed_reading g =
     (if take 1 g = [45] then - reading (Some (drop 1 g)) else reading (Some g))"

section \<open>Example inputs\<close>

text \<open>
  A raw markup of four lines, \<open>== Filming locations ==\<close>, \<open>* [[Paris]]\<close>, \<open>* abc\<close> and
  \<open>== Cast ==\<close>, and a text without any section.
\<close>

definition markup_paris :: jsstring where
  "markup_paris = js ''== Filming locations =='' @ [10] @ js ''* [[Paris]]'' @ [10] @
     js ''* abc'' @ [10] @ js ''== Cast ==''"

definition markup_plot :: jsstring where
  "markup_plot = js ''Plot''"

text \<open>
  A listing page of the film database with one list item, and the same page with another
  item; the actor's input with coordinate validation switched on.
\<close>

definition page_greenwich :: page where
  "page_greenwich =
     \<lparr> url = js ''https://www.imdb.com/title/tt1375666/locations'',
       title = js ''Inception (2010)'',
       headings = [],
       hasFilmingLocations = False,
       listItems = [js '' Royal Observatory, Greenwich, 51.4779, 0.0 ''],
       paragraphs = [],
       wikitext = None \<rparr>"

definition page_implausible :: page where
  "page_implausible = page_greenwich \<lparr> listItems := [js ''Studio lot 95.5, 10.5''] \<rparr>"

definition input_validating :: input where
  "input_validating = \<lparr> useWikipediaApi = True, validateCoordinates = True \<rparr>"

text \<open>
  A raw markup whose section has one line with a piped link,
  \<open>* [[Paris, France|Paris]]\<close>.
\<close>

definition markup_piped :: jsstring where
  "markup_piped = js ''== Filming locations =='' @ [10] @ js ''* [[Paris, France|Paris]]'' @
     [10] @ js ''== Cast ==''"

text \<open>
  A listing page with the same place written three times: with one space, with two spaces
  and in lower case.
\<close>

definition page_paris :: page where
  "page_paris =
     \<lparr> url = js ''https://www.imdb.com/title/tt1375666/locations'',
       title = js ''Inception'',
       headings = [],
       hasFilmingLocations = False,
       listItems = [js ''Paris, France'', js ''Paris,  France'', js ''paris, france''],
       paragraphs = [],
       wikitext = None \<rparr>"

definition input_default :: input where
  "input_default = \<lparr> useWikipediaApi = True, validateCoordinates = False \<rparr>"

text \<open>The actor's input with the markup path switched off.\<close>

definition input_no_markup :: input where
  "input_no_markup = \<lparr> useWikipediaApi = False, validateCoordinates = False \<rparr>"

text \<open>
  An encyclopedia article with a heading \<open>Filming locations\<close> followed by the paragraph
  \<open>Paris, France; London, UK\<close> and by the next heading, with a paragraph that mentions
  locations, and with the raw markup \<open>markup_paris\<close>; and a page with two paragraphs only.
\<close>

definition page_article :: page where
  "page_article =
     \<lparr> url = js ''https://en.wikipedia.org/wiki/Inception'',
       title = js ''Inception'',
       headings = [\<lparr> heading_text = js ''Plot'', siblings = [] \<rparr>,
                   \<lparr> heading_text = js ''Filming locations'',
                     siblings = [\<lparr> name = js ''p'', node_text = js ''Paris, France; London, UK'' \<rparr>,
                                 \<lparr> name = js ''h2'', node_text = js ''Cast'' \<rparr>,
                                 \<lparr> name = js ''p'', node_text = js ''Leonardo DiCaprio'' \<rparr>] \<rparr>],
       hasFilmingLocations = False,
       listItems = [],
       paragraphs = [js ''The location of the shoot was Paris.''],
       wikitext = Some markup_paris \<rparr>"

definition page_plain :: page where
  "page_plain =
     \<lparr> url = js ''https://example.com/inception'',
       title = js ''Inception'',
       headings = [],
       hasFilmingLocations = False,
       listItems = [],
       paragraphs = [js ''A thief steals secrets.'', js '' Locations used: Tangier, Morocco ''],
       wikitext = None \<rparr>"

text \<open>
  Two texts with a pair of decimal numbers: \<open>37.7749, 122.4194 W\<close>, and the same numbers
  each followed by a degree sign (U+00B0) and a hemisphere letter, the first of the two
  notations named in the comment of \<open>tryParseCoordinates\<close>.
\<close>

definition text_trailing_w :: jsstring where
  "text_trailing_w = js ''37.7749, 122.4194 W''"

definition text_degrees :: jsstring where
  "text_degrees = js ''37.7749'' @ [176] @ js '' N, 122.4194'' @ [176] @ js '' W''"

text \<open>
  A text with two pairs of decimal numbers, the first with a minus sign, and a text whose
  first number has four digits before the point.
\<close>

definition text_two_pairs :: jsstring where
  "text_two_pairs = js ''-12.5, 3.75 and 7.5, 8.5''"

definition text_four_digits :: jsstring where
  "text_four_digits = js ''1234.5, 2.5''"

text \<open>
  The coordinates of the comment in \<open>tryParseCoordinates\<close>, 37 degrees 46 minutes 29
  seconds north and 122 degrees 25 minutes 10 seconds west, written with the degree sign
  U+00B0, the prime U+2032 and the double prime U+2033; and the same text after a pair of
  decimal numbers.
\<close>

definition text_dms :: jsstring where
  "text_dms = js ''37'' @ [176] @ js ''46'' @ [8242] @ js ''29'' @ [8243] @ js ''N 122'' @ [176] @
     js ''25'' @ [8242] @ js ''10'' @ [8243] @ js ''W''"

definition text_both :: jsstring where
  "text_both = js ''1.5, 2.5 at '' @ text_dms"

section \<open>Evaluation on concrete inputs\<close>

text \<open>The defining equations needed to run the patterns and the string helpers by rewriting.\<close>

lemmas char_defs = js_def ws_ranges_def digit_ranges_def newline_ranges_def is_ws_def
  is_digit_def is_word_def other_case_def

lemmas pattern_defs = ch_def ch_i_def lit_def lit_i_def decNumber_def decPattern_def
  dmsAxis_def dmsPattern_def separators_def sectionPattern_def boldPattern_def
  templatePattern_def externalLinkPattern_def internalLinkPattern_def headingName_def
  imdbUrl_def fallbackPattern_def wsRun_def

lemmas string_defs = Let_def trim_def to_upper_def to_lower_def replace_all_def
  split_regex_def test_def

lemmas number_defs = parseFloat_def is_decimal_literal_def Number_def Number_or_0_def
  digits_value_def dmsValue_def

section \<open>Properties of the string helpers\<close>

lemma dropWhile_id_iff: "dropWhile P xs = xs \<longleftrightarrow> (xs = [] \<or> \<not> P (hd xs))"
  by (cases xs) (auto simp: dropWhile_eq_Cons_conv)

text \<open>A trimmed string neither starts nor ends with white space.\<close>

lemma trim_ends: "trim s = [] \<or> (\<not> is_ws (hd (trim s)) \<and> \<not> is_ws (last (trim s)))"
proof (cases "trim s = []")
  case True
  then show ?thesis by simp
next
  case False
  define t where "t = dropWhile is_ws s"
  define u where "u = dropWhile is_ws (rev t)"
  have tr: "trim s = rev u" by (simp add: trim_def t_def u_def)
  with False have u: "u \<noteq> []" by simp
  then have hu: "\<not> is_ws (hd u)" unfolding u_def by (rule hd_dropWhile)
  have "rev t = takeWhile is_ws (rev t) @ u" by (simp add: u_def)
  then have "rev (rev t) = rev (takeWhile is_ws (rev t) @ u)" by simp
  then have t: "t = rev u @ rev (takeWhile is_ws (rev t))" by simp
  with u have "t \<noteq> []" by auto
  then have "\<not> is_ws (hd t)" unfolding t_def by (rule hd_dropWhile)
  moreover have "hd t = hd (rev u)" using t u by (metis hd_append2 rev_is_Nil_conv)
  ultimately have "\<not> is_ws (hd (rev u))" by simp
  moreover have "last (rev u) = hd u" using u by (simp add: last_rev)
  ultimately show ?thesis using hu tr by simp
qed

text \<open>Such a string is left as it is by \<open>trim\<close>.\<close>

lemma trim_fixed:
  assumes "s = [] \<or> (\<not> is_ws (hd s) \<and> \<not> is_ws (last s))"
  shows "trim s = s"
proof (cases "s = []")
  case True
  then show ?thesis by (simp add: trim_def)
next
  case False
  with assms have h: "\<not> is_ws (hd s)" and l: "\<not> is_ws (last s)" by auto
  have 1: "dropWhile is_ws s = s" using h by (simp add: dropWhile_id_iff)
  have "hd (rev s) = last s" using False by (simp add: hd_rev)
  then have 2: "dropWhile is_ws (rev s) = rev s" using l by (simp add: dropWhile_id_iff)
  show ?thesis by (simp add: trim_def 1 2)
qed

lemma trim_idem: "trim (trim s) = trim s"
  by (rule trim_fixed) (rule trim_ends)

lemma set_trim: "set (trim s) \<subseteq> set s"
  unfolding trim_def by (metis set_dropWhileD set_rev subsetI)

lemma split_char_no_sep: "l \<in> set (split_char sep s) \<Longrightarrow> sep \<notin> set l"
  by (induction s arbitrary: l) (auto split: if_splits list.splits)

lemma split_char_nonempty: "split_char sep s \<noteq> []"
  by (induction s) (auto split: list.splits)

section \<open>The lines of the markup extractor\<close>

text \<open>
  Every line the markup extractor returns is the trimmed form of a line of the cleaned
  section, and its length is above 5 and below 400.
\<close>

lemma wikitext_line:
  assumes "l \<in> set (findFilmingLocationsFromWikiWikitext w)"
  shows "\<exists>t sec x. w = Some t \<and> matched_text sectionPattern t = Some sec \<and>
           x \<in> set (split_char 10 (cleanup sec)) \<and> l = trim x \<and>
           5 < length l \<and> length l < 400"
proof (cases w)
  case None
  with assms show ?thesis by (simp add: findFilmingLocationsFromWikiWikitext_def)
next
  case w: (Some t)
  show ?thesis
  proof (cases "matched_text sectionPattern t")
    case None
    with w assms show ?thesis
      by (simp add: findFilmingLocationsFromWikiWikitext_def split: if_splits)
  next
    case m: (Some sec)
    with w assms
    have "l \<in> set (take 200 (filter (\<lambda>l. length l > 5 \<and> length l < 400)
             (filter (\<lambda>l. l \<noteq> []) (map trim (split_char 10 (cleanup sec))))))"
      by (simp add: findFilmingLocationsFromWikiWikitext_def Let_def split: if_splits)
    then have "l \<in> set (filter (\<lambda>l. length l > 5 \<and> length l < 400)
             (filter (\<lambda>l. l \<noteq> []) (map trim (split_char 10 (cleanup sec)))))"
      by (rule in_set_takeD)
    then show ?thesis using m w by auto
  qed
qed

lemma wikitext_at_most_200: "length (findFilmingLocationsFromWikiWikitext w) \<le> 200"
  by (simp add: findFilmingLocationsFromWikiWikitext_def Let_def split: option.splits)

text \<open>
  Claim C8. Whatever the raw markup, the markup extractor returns at most 200 lines, and
  each of them is non-empty, trimmed, free of line feeds and between 5 and 400 code units
  long. For an absent input (\<open>null\<close>, \<open>undefined\<close> or the empty string) and for markup in
  which the section pattern finds nothing, it returns the empty list.
\<close>

theorem C8_markup_extractor_lines:
  "(\<forall>l \<in> set (findFilmingLocationsFromWikiWikitext w).
      l \<noteq> [] \<and> trim l = l \<and> 10 \<notin> set l \<and> 5 \<le> length l \<and> length l \<le> 400) \<and>
   length (findFilmingLocationsFromWikiWikitext w) \<le> 200 \<and>
   findFilmingLocationsFromWikiWikitext None = [] \<and>
   findFilmingLocationsFromWikiWikitext (Some []) = [] \<and>
   (matched_text sectionPattern t = None \<longrightarrow> findFilmingLocationsFromWikiWikitext (Some t) = [])"
proof (intro conjI ballI impI)
  fix l
  assume "l \<in> set (findFilmingLocationsFromWikiWikitext w)"
  then obtain sec x where x: "x \<in> set (split_char 10 (cleanup sec))"
    and l: "l = trim x" "5 < length l" "length l < 400"
    using wikitext_line by blast
  from l show "l \<noteq> []" by auto
  from l show "trim l = l" by (simp add: trim_idem)
  from x have "10 \<notin> set x" by (rule split_char_no_sep)
  with l set_trim show "10 \<notin> set l" by blast
  from l show "5 \<le> length l" by simp
  from l show "length l \<le> 400" by simp
next
  show "length (findFilmingLocationsFromWikiWikitext w) \<le> 200"
    by (rule wikitext_at_most_200)
next
  show "findFilmingLocationsFromWikiWikitext None = []"
    by (simp add: findFilmingLocationsFromWikiWikitext_def)
next
  show "findFilmingLocationsFromWikiWikitext (Some []) = []"
    by (simp add: findFilmingLocationsFromWikiWikitext_def)
next
  assume "matched_text sectionPattern t = None"
  then show "findFilmingLocationsFromWikiWikitext (Some t) = []"
    by (simp add: findFilmingLocationsFromWikiWikitext_def)
qed

text \<open>
  On \<open>markup_paris\<close> the extractor returns the heading line and \<open>* Paris\<close>; the line
  \<open>* abc\<close> is too short.
\<close>

lemma wikitext_example:
  "findFilmingLocationsFromWikiWikitext (Some markup_paris)
   = [js ''== Filming locations =='', js ''* Paris'']"
  by (simp add: findFilmingLocationsFromWikiWikitext_def cleanup_def markup_paris_def
      char_defs pattern_defs string_defs)

lemma no_section_example: "matched_text sectionPattern markup_plot = None"
  by (simp add: markup_plot_def char_defs pattern_defs)

theorem C8_markup_extractor_lines_witness:
  "findFilmingLocationsFromWikiWikitext (Some markup_paris)
     = [js ''== Filming locations =='', js ''* Paris''] \<and>
   js ''* Paris'' \<noteq> [] \<and> trim (js ''* Paris'') = js ''* Paris'' \<and> 10 \<notin> set (js ''* Paris'') \<and>
   5 \<le> length (js ''* Paris'') \<and> length (js ''* Paris'') \<le> 400 \<and>
   length (findFilmingLocationsFromWikiWikitext (Some markup_paris)) \<le> 200 \<and>
   matched_text sectionPattern markup_plot = None \<and>
   findFilmingLocationsFromWikiWikitext (Some markup_plot) = []"
  using C8_markup_extractor_lines [of "Some markup_paris" markup_plot]
  by (simp add: wikitext_example no_section_example)

lemmas handler_defs = extractFromCheerio_def records_of_def candidates_def wiki_strategy_def
  fallback_strategy_def fallbackMatches_def layout_strategy_def dom_strategy_def
  heading_locations_def is_heading_name_def extractPossibleLocationsFromText_def
  wikiLocations_def findFilmingLocationsFromWikiWikitext_def cleanup_def normalize_def
  clean_def make_record_def parts_of_def city_of_def region_of_def country_of_def
  or_null_def tryParseCoordinates_def

section \<open>Coordinates of a record\<close>

text \<open>
  Claim C1 asks that no record has exactly one coordinate. The phrase
  \<open>Royal Observatory, Greenwich, 51.4779, 0.0\<close> is parsed to the pair (51.4779, 0), and the
  record built from it has the latitude and \<open>null\<close> for the longitude: \<open>0 || null\<close> is
  \<open>null\<close>.
\<close>

theorem C1_zero_coordinate_dropped:
  "tryParseCoordinates (js ''Royal Observatory, Greenwich, 51.4779, 0.0'')
     = Some (Coords (Num (514779 / 10000)) (Num 0)) \<and>
   fst (extractFromCheerio inp page_greenwich)
     = [\<lparr> movie_title = js ''Inception (2010)'', year = js ''2010'',
          location_text = js ''Royal Observatory, Greenwich, 51.4779, 0.0'',
          city = js ''Royal Observatory'', region = js ''Greenwich'',
          country = js ''51.4779, 0.0'',
          latitude = Some (514779 / 10000), longitude = None,
          source_url = js ''https://www.imdb.com/title/tt1375666/locations'' \<rparr>]"
  by (simp add: page_greenwich_def handler_defs char_defs pattern_defs string_defs number_defs)

text \<open>
  Apart from a coordinate that is 0, a record has both coordinates or none: none when the
  parser finds no pair, both when it finds a pair of numbers other than 0.
\<close>

lemma record_coordinates_none:
  "tryParseCoordinates t = None \<Longrightarrow>
     latitude (make_record p t) = None \<and> longitude (make_record p t) = None"
  by (simp add: make_record_def or_null_def Let_def)

lemma record_coordinates_both:
  "tryParseCoordinates t = Some (Coords (Num a) (Num b)) \<Longrightarrow> a \<noteq> 0 \<Longrightarrow> b \<noteq> 0 \<Longrightarrow>
     latitude (make_record p t) = Some a \<and> longitude (make_record p t) = Some b"
  by (simp add: make_record_def or_null_def Let_def)

section \<open>The validateCoordinates option\<close>

text \<open>
  Claim C3 asks that with \<open>validateCoordinates\<close> switched on a match with a latitude
  beyond 90 is discarded. The option is read from the actor's input and never used: the
  phrase \<open>Studio lot 95.5, 10.5\<close> gives the latitude 95.5 with the option on.
\<close>

theorem C3_validation_not_applied:
  "validateCoordinates input_validating \<and>
   tryParseCoordinates (js ''Studio lot 95.5, 10.5'')
     = Some (Coords (Num (191 / 2)) (Num (21 / 2))) \<and>
   map (\<lambda>r. (location_text r, latitude r, longitude r))
       (fst (extractFromCheerio input_validating page_implausible))
     = [(js ''Studio lot 95.5, 10.5'', Some (191 / 2), Some (21 / 2))]"
  by (simp add: page_implausible_def page_greenwich_def input_validating_def handler_defs
      char_defs pattern_defs string_defs number_defs)

section \<open>Internal links in the markup\<close>

text \<open>
  Claim C4 asks that \<open>[[target|display]]\<close> becomes the display text. The replacement is
  \<open>$2$1\<close>, the display text followed by the target: \<open>[[Paris, France|Paris]]\<close> becomes
  \<open>ParisParis, France\<close>. A link without a pipe becomes its target.
\<close>

theorem C4_piped_link_keeps_target:
  "cleanup (js ''[[Paris, France|Paris]]'') = js ''ParisParis, France'' \<and>
   cleanup (js ''[[Paris]]'') = js ''Paris'' \<and>
   findFilmingLocationsFromWikiWikitext (Some markup_piped)
     = [js ''== Filming locations =='', js ''* ParisParis, France'']"
  by (simp add: markup_piped_def handler_defs char_defs pattern_defs string_defs)

section \<open>Collapsing white space\<close>

text \<open>The greedy star over a character set first offers the longest run.\<close>

lemma repeat_star_greedy:
  "repeat_cs True 0 None cs s \<noteq> [] \<and>
   hd (repeat_cs True 0 None cs s) = dropWhile (member_cs cs) s"
  by (induction s) (auto simp: Let_def)

lemma matches_wsRun_Nil: "matches wsRun ([], k) = []"
  by (simp add: wsRun_def)

lemma matches_wsRun_Cons:
  "matches wsRun (c # cs, k) =
     (if is_ws c then map (\<lambda>r. (r, k)) (repeat_cs True 0 None (Pos ws_ranges) cs) else [])"
  by (simp add: wsRun_def is_ws_def Let_def)

lemma member_ws: "member_cs (Pos ws_ranges) = is_ws"
  by (auto simp: is_ws_def)

lemma matches_wsRun_hd:
  "is_ws c \<Longrightarrow> \<exists>ms. matches wsRun (c # cs, k) = (dropWhile is_ws cs, k) # ms"
proof -
  assume c: "is_ws c"
  obtain r rs where r: "repeat_cs True 0 None (Pos ws_ranges) cs = r # rs"
    using repeat_star_greedy [of "Pos ws_ranges" cs] by (cases "repeat_cs True 0 None (Pos ws_ranges) cs") auto
  with repeat_star_greedy [of "Pos ws_ranges" cs] have "r = dropWhile is_ws cs"
    by (simp add: member_ws)
  with c r show ?thesis by (simp add: matches_wsRun_Cons)
qed

text \<open>Passing over \<open>n\<close> code units is dropping them.\<close>

lemma replace_from_skip:
  "n \<le> length s \<Longrightarrow> replace_from r t n s = replace_from r t 0 (drop n s)"
proof (induction s arbitrary: n)
  case Nil
  then show ?case by simp
next
  case (Cons c cs)
  show ?case
  proof (cases n)
    case 0
    then show ?thesis by simp
  next
    case (Suc m)
    with Cons.prems have "m \<le> length cs" by simp
    with Cons.IH [of m] Suc show ?thesis by simp
  qed
qed

text \<open>
  \<open>loc.replace(/\s+/g, ' ')\<close> by recursion on the text: a run of white space becomes one
  space, any other code unit is copied.
\<close>

lemma collapse_Nil: "replace_all wsRun [Lit [32]] [] = []"
  by (simp add: replace_all_def matches_wsRun_Nil)

lemma collapse_Cons:
  "replace_all wsRun [Lit [32]] (c # cs) =
     (if is_ws c then 32 # replace_all wsRun [Lit [32]] (dropWhile is_ws cs)
      else c # replace_all wsRun [Lit [32]] cs)"
proof (cases "is_ws c")
  case False
  then show ?thesis by (simp add: replace_all_def matches_wsRun_Cons)
next
  case True
  then obtain ms where m: "matches wsRun (c # cs, Map.empty) = (dropWhile is_ws cs, Map.empty) # ms"
    using matches_wsRun_hd by blast
  have le: "length (dropWhile is_ws cs) \<le> length cs" by (rule length_dropWhile_le)
  have "length (takeWhile is_ws cs) + length (dropWhile is_ws cs) = length cs"
    by (metis length_append takeWhile_dropWhile_id)
  then have "length cs - length (dropWhile is_ws cs) = length (takeWhile is_ws cs)"
    by simp
  then have d: "drop (length cs - length (dropWhile is_ws cs)) cs = dropWhile is_ws cs"
    by (simp add: dropWhile_eq_drop)
  have "replace_from wsRun [Lit [32]] 0 (c # cs) =
        32 # replace_from wsRun [Lit [32]] (length cs - length (dropWhile is_ws cs)) cs"
    using m le by simp
  also have "\<dots> = 32 # replace_from wsRun [Lit [32]] 0 (dropWhile is_ws cs)"
    using replace_from_skip [of "length cs - length (dropWhile is_ws cs)" cs wsRun "[Lit [32]]"] d
    by simp
  finally show ?thesis using True by (simp add: replace_all_def)
qed

lemma dropWhile_not_ws: "dropWhile is_ws cs = [] \<or> \<not> is_ws (hd (dropWhile is_ws cs))"
  using hd_dropWhile [of is_ws cs] by blast

lemma collapse_hd:
  "\<not> is_ws c \<Longrightarrow> replace_all wsRun [Lit [32]] (c # cs) = c # replace_all wsRun [Lit [32]] cs"
  by (simp add: collapse_Cons)

text \<open>The result has white space only as single spaces.\<close>

lemma squeezed_collapse: "squeezed (replace_all wsRun [Lit [32]] s)"
proof (induction "length s" arbitrary: s rule: less_induct)
  case less
  show ?case
  proof (cases s)
    case Nil
    then show ?thesis by (simp add: collapse_Nil)
  next
    case (Cons c cs)
    show ?thesis
    proof (cases "is_ws c")
      case False
      with Cons less [of cs] show ?thesis by (simp add: collapse_Cons)
    next
      case True
      have "length (dropWhile is_ws cs) < length s"
        using Cons length_dropWhile_le [of is_ws cs] by simp
      then have sq: "squeezed (replace_all wsRun [Lit [32]] (dropWhile is_ws cs))"
        by (rule less)
      have "case replace_all wsRun [Lit [32]] (dropWhile is_ws cs) of [] \<Rightarrow> True
            | d # _ \<Rightarrow> \<not> is_ws d"
      proof (cases "dropWhile is_ws cs")
        case Nil
        show ?thesis unfolding Nil by (simp add: collapse_Nil)
      next
        case d: (Cons d ds)
        with dropWhile_not_ws [of cs] have "\<not> is_ws d" by simp
        with d show ?thesis by (simp add: collapse_Cons)
      qed
      with sq True Cons show ?thesis by (simp add: collapse_Cons)
    qed
  qed
qed

text \<open>Such a text is left as it is.\<close>

lemma collapse_squeezed: "squeezed s \<Longrightarrow> replace_all wsRun [Lit [32]] s = s"
proof (induction s)
  case Nil
  then show ?case by (simp add: collapse_Nil)
next
  case (Cons c cs)
  then have IH: "replace_all wsRun [Lit [32]] cs = cs" by simp
  show ?case
  proof (cases "is_ws c")
    case False
    with IH show ?thesis by (simp add: collapse_Cons)
  next
    case True
    with Cons.prems have c: "c = 32" and "case cs of [] \<Rightarrow> True | d # _ \<Rightarrow> \<not> is_ws d" by auto
    then have "dropWhile is_ws cs = cs" by (cases cs) auto
    with True c IH show ?thesis by (simp add: collapse_Cons)
  qed
qed

lemma squeezed_suffix: "squeezed (xs @ ys) \<Longrightarrow> squeezed ys"
  by (induction xs) auto

lemma squeezed_prefix: "squeezed (xs @ ys) \<Longrightarrow> squeezed xs"
proof (induction xs)
  case Nil
  then show ?case by simp
next
  case (Cons x xs)
  then show ?case by (cases xs) (auto split: if_splits list.splits)
qed

lemma trim_is_infix: "\<exists>us vs. s = us @ trim s @ vs"
proof -
  define t where "t = dropWhile is_ws s"
  define u where "u = dropWhile is_ws (rev t)"
  have "rev t = takeWhile is_ws (rev t) @ u" by (simp add: u_def)
  then have "rev (rev t) = rev (takeWhile is_ws (rev t) @ u)" by simp
  then have t: "t = rev u @ rev (takeWhile is_ws (rev t))" by simp
  have "s = takeWhile is_ws s @ t" by (simp add: t_def)
  with t have "s = takeWhile is_ws s @ rev u @ rev (takeWhile is_ws (rev t))" by simp
  moreover have "trim s = rev u" by (simp add: trim_def t_def u_def)
  ultimately show ?thesis by metis
qed

lemma squeezed_trim: "squeezed s \<Longrightarrow> squeezed (trim s)"
proof -
  assume s: "squeezed s"
  obtain us vs where "s = us @ trim s @ vs" using trim_is_infix by blast
  with s have "squeezed (us @ trim s @ vs)" by simp
  then have "squeezed (trim s @ vs)" by (rule squeezed_suffix)
  then show ?thesis by (rule squeezed_prefix)
qed

text \<open>A cleaned phrase is squeezed and trimmed, and such a phrase is left as it is.\<close>

lemma squeezed_clean: "squeezed (clean s)"
  by (simp add: clean_def squeezed_trim squeezed_collapse)

lemma clean_fixed: "squeezed s \<Longrightarrow> trim s = s \<Longrightarrow> clean s = s"
  by (simp add: clean_def collapse_squeezed)

lemma clean_idem: "clean (clean s) = clean s"
proof (rule clean_fixed)
  show "squeezed (clean s)" by (rule squeezed_clean)
  show "trim (clean s) = clean s" by (simp add: clean_def trim_idem)
qed

section \<open>Normalisation and deduplication\<close>

lemma first_occurrences_Nil: "first_occurrences [] = []"
  by (simp add: first_occurrences_def)

lemma remdups_snoc: "remdups (ys @ [x]) = remdups (filter (\<lambda>y. y \<noteq> x) ys) @ [x]"
  by (induction ys) auto

lemma count_list_distinct: "distinct xs \<Longrightarrow> x \<in> set xs \<Longrightarrow> count_list xs x = 1"
  by (induction xs) (auto simp: count_list_0_iff)

lemma first_occurrences_Cons:
  "first_occurrences (x # xs) = x # filter (\<lambda>y. y \<noteq> x) (first_occurrences xs)"
proof -
  have "remdups (rev xs @ [x]) = remdups (filter (\<lambda>y. y \<noteq> x) (rev xs)) @ [x]"
    by (rule remdups_snoc)
  then show ?thesis
    by (simp add: first_occurrences_def remdups_filter rev_filter)
qed

lemma distinct_first_occurrences: "distinct (first_occurrences xs)"
  by (simp add: first_occurrences_def)

lemma set_first_occurrences: "set (first_occurrences xs) = set xs"
  by (simp add: first_occurrences_def)

lemma first_occurrences_distinct: "distinct xs \<Longrightarrow> first_occurrences xs = xs"
  by (simp add: first_occurrences_def distinct_remdups_id)

text \<open>
  The loop keeps, in order, the first occurrence of every cleaned phrase of at least three
  code units that has not been seen.
\<close>

lemma normalize_loop_eq:
  "normalize_loop locs seen acc =
     acc @ filter (\<lambda>t. t \<notin> seen)
             (first_occurrences (filter (\<lambda>t. 3 \<le> length t) (map clean locs)))"
proof (induction locs arbitrary: seen acc)
  case Nil
  then show ?case by (simp add: first_occurrences_Nil)
next
  case (Cons loc locs)
  let ?t = "clean loc"
  show ?case
  proof (cases "3 \<le> length ?t")
    case False
    then have "?t = [] \<or> length ?t < 3" by auto
    with False Cons.IH show ?thesis by (simp add: Let_def)
  next
    case True
    then have ne: "\<not> (?t = [] \<or> length ?t < 3)" by auto
    have eq: "filter (\<lambda>t. t \<notin> insert ?t seen) ys = filter (\<lambda>t. t \<notin> seen) (filter (\<lambda>y. y \<noteq> ?t) ys)"
      for ys by (induction ys) auto
    show ?thesis
    proof (cases "?t \<in> seen")
      case in_seen: True
      have "filter (\<lambda>t. t \<notin> seen) (filter (\<lambda>y. y \<noteq> ?t) ys) = filter (\<lambda>t. t \<notin> seen) ys" for ys
        using in_seen by (induction ys) auto
      with ne in_seen True Cons.IH show ?thesis
        by (simp add: Let_def first_occurrences_Cons)
    next
      case False
      with ne True Cons.IH eq show ?thesis
        by (simp add: Let_def first_occurrences_Cons)
    qed
  qed
qed

lemma normalize_eq:
  "normalize locations =
     first_occurrences (filter (\<lambda>t. 3 \<le> length t) (map clean locations))"
  by (simp add: normalize_def normalize_loop_eq)

lemma distinct_normalize: "distinct (normalize locations)"
  by (simp add: normalize_eq distinct_first_occurrences)

lemma set_normalize:
  "set (normalize locations) = {t. 3 \<le> length t \<and> t \<in> clean ` set locations}"
  by (auto simp: normalize_eq set_first_occurrences)

lemma normalize_fixed:
  assumes "distinct xs" and "\<forall>x \<in> set xs. clean x = x \<and> 3 \<le> length x"
  shows "normalize xs = xs"
proof -
  from assms(2) have "map clean xs = xs" by (induction xs) auto
  moreover from assms(2) have "filter (\<lambda>t. 3 \<le> length t) xs = xs" by (induction xs) auto
  ultimately show ?thesis using assms(1) by (simp add: normalize_eq first_occurrences_distinct)
qed

lemma normalized_phrase:
  "t \<in> set (normalize locations) \<Longrightarrow> clean t = t \<and> trim t = t \<and> 3 \<le> length t"
proof -
  assume "t \<in> set (normalize locations)"
  then obtain l where "t = clean l" "3 \<le> length t" by (auto simp: set_normalize)
  then show ?thesis by (simp add: clean_idem) (simp add: clean_def trim_idem)
qed

lemma location_text_records: "map location_text (records_of p locations) = take 200 (normalize locations)"
  by (simp add: records_of_def make_record_def Let_def comp_def)

text \<open>
  Claim C9. Normalising the output of the normalisation again, as a list of phrases,
  gives the same list; so does it for the at most 200 phrases that become records.
\<close>

theorem C9_normalize_idempotent:
  "normalize (normalize locations) = normalize locations \<and>
   take 200 (normalize (take 200 (normalize locations))) = take 200 (normalize locations)"
proof
  show "normalize (normalize locations) = normalize locations"
    by (rule normalize_fixed) (auto simp: distinct_normalize dest: normalized_phrase)
  have "normalize (take 200 (normalize locations)) = take 200 (normalize locations)"
    by (rule normalize_fixed) (auto simp: distinct_normalize dest: normalized_phrase in_set_takeD)
  then show "take 200 (normalize (take 200 (normalize locations))) = take 200 (normalize locations)"
    by simp
qed

lemma normalize_example:
  "normalize [js '' Paris,   France '', js ''ab'', js ''Paris, France'', js ''London, UK'']
     = [js ''Paris, France'', js ''London, UK'']"
  by (simp add: normalize_def clean_def char_defs pattern_defs string_defs)

text \<open>
  Claim C2, as amended. The texts of the records of a page are pairwise distinct; they
  are the first 200 of the first occurrences of the cleaned phrases of at least three code
  units, cleaning being the collapse of white-space runs and trimming, with letter case
  kept. Phrases of the page that clean to the same text of at least three code units give
  exactly one normalised phrase.
\<close>

theorem C2_dedup_after_cleaning:
  "distinct (map location_text (records_of p locations)) \<and>
   map location_text (records_of p locations) = take 200 (normalize locations) \<and>
   normalize locations
     = first_occurrences (filter (\<lambda>t. 3 \<le> length t) (map clean locations)) \<and>
   (a \<in> set locations \<and> b \<in> set locations \<and> clean a = clean b \<and> 3 \<le> length (clean a)
      \<longrightarrow> count_list (normalize locations) (clean b) = 1)"
proof (intro conjI impI)
  show "distinct (map location_text (records_of p locations))"
    by (simp add: location_text_records distinct_normalize)
  show "map location_text (records_of p locations) = take 200 (normalize locations)"
    by (rule location_text_records)
  show "normalize locations
     = first_occurrences (filter (\<lambda>t. 3 \<le> length t) (map clean locations))"
    by (rule normalize_eq)
next
  assume h: "a \<in> set locations \<and> b \<in> set locations \<and> clean a = clean b \<and> 3 \<le> length (clean a)"
  then have "clean b \<in> set (normalize locations)" by (auto simp: set_normalize)
  then show "count_list (normalize locations) (clean b) = 1"
    using distinct_normalize [of locations] by (simp add: count_list_distinct)
qed

text \<open>
  On the page \<open>page_paris\<close> the phrase with two spaces is dropped, and the phrase in lower
  case, which differs from the first in letter case only, becomes a second record.
\<close>

theorem C2_dedup_after_cleaning_witness:
  "map location_text (records_of page_paris (listItems page_paris))
     = [js ''Paris, France'', js ''paris, france''] \<and>
   js ''Paris, France'' \<in> set (listItems page_paris) \<and>
   js ''Paris,  France'' \<in> set (listItems page_paris) \<and>
   clean (js ''Paris, France'') = clean (js ''Paris,  France'') \<and>
   3 \<le> length (clean (js ''Paris, France'')) \<and>
   count_list (normalize (listItems page_paris)) (clean (js ''Paris,  France'')) = 1"
  using C2_dedup_after_cleaning
    [of page_paris "listItems page_paris" "js ''Paris, France''" "js ''Paris,  France''"]
  by (simp add: page_paris_def normalize_def clean_def char_defs pattern_defs string_defs)

theorem C2_case_variants_both_kept:
  "to_lower (js ''Paris, France'') = to_lower (js ''paris, france'') \<and>
   map location_text (fst (extractFromCheerio input_default page_paris))
     = [js ''Paris, France'', js ''paris, france'']"
  by (simp add: page_paris_def input_default_def handler_defs char_defs pattern_defs
      string_defs number_defs)

section \<open>City, region and country\<close>

lemma split_char_no_comma: "sep \<notin> set s \<Longrightarrow> split_char sep s = [s]"
  by (induction s) auto

text \<open>A normalised phrase without a comma is its own single part.\<close>

lemma parts_of_no_comma:
  assumes "t \<in> set (normalize locations)" and "44 \<notin> set t"
  shows "parts_of t = [t]"
proof -
  from assms(1) have "trim t = t" "3 \<le> length t" using normalized_phrase by blast+
  then have "trim t = t" "t \<noteq> []" by auto
  with assms(2) show ?thesis by (simp add: parts_of_def split_char_no_comma)
qed

text \<open>The parts are not empty and are trimmed.\<close>

lemma parts_of_trimmed: "s \<in> set (parts_of t) \<Longrightarrow> s \<noteq> [] \<and> trim s = s"
  by (auto simp: parts_of_def trim_idem)

text \<open>The fields of a record.\<close>

lemma record_fields:
  "city (make_record p t) = city_of (parts_of t)"
  "region (make_record p t) = region_of (parts_of t)"
  "country (make_record p t) = country_of (parts_of t)"
  "latitude (make_record p t) = or_null (map_option coords_latitude (tryParseCoordinates t))"
  "longitude (make_record p t) = or_null (map_option coords_longitude (tryParseCoordinates t))"
  "location_text (make_record p t) = t"
  by (simp_all add: make_record_def Let_def)

lemma golden_gate_record:
  "city (make_record p (js ''Golden Gate Bridge, San Francisco, 37.8199, -122.4783''))
     = js ''Golden Gate Bridge'' \<and>
   region (make_record p (js ''Golden Gate Bridge, San Francisco, 37.8199, -122.4783''))
     = js ''San Francisco'' \<and>
   country (make_record p (js ''Golden Gate Bridge, San Francisco, 37.8199, -122.4783''))
     = js ''37.8199, -122.4783'' \<and>
   latitude (make_record p (js ''Golden Gate Bridge, San Francisco, 37.8199, -122.4783''))
     = Some (378199 / 10000) \<and>
   longitude (make_record p (js ''Golden Gate Bridge, San Francisco, 37.8199, -122.4783''))
     = Some (- 1224783 / 10000)"
  by (simp add: record_fields parts_of_def city_of_def region_of_def country_of_def
      or_null_def tryParseCoordinates_def char_defs pattern_defs string_defs number_defs)

text \<open>
  Claim C5, as amended. The parts of a phrase are the non-empty trimmed pieces between its
  commas. With one part the city is that part, and region and country are empty; with two
  parts they are city and country, and the region is empty; with three or more the first
  is the city, the second the region, and the others joined by a comma and a space are the
  country; with no part all three are empty. A normalised phrase without a comma is its
  own city. The phrase \<open>Golden Gate Bridge, San Francisco, 37.8199, -122.4783\<close> gives the
  city \<open>Golden Gate Bridge\<close>, the region \<open>San Francisco\<close>, the country
  \<open>37.8199, -122.4783\<close> and the coordinates 37.8199 and -122.4783.
\<close>

theorem C5_fields_from_parts:
  "(parts_of t = [] \<longrightarrow>
      city (make_record p t) = [] \<and> region (make_record p t) = [] \<and>
      country (make_record p t) = []) \<and>
   (length (parts_of t) = 1 \<longrightarrow>
      city (make_record p t) = parts_of t ! 0 \<and> region (make_record p t) = [] \<and>
      country (make_record p t) = []) \<and>
   (length (parts_of t) = 2 \<longrightarrow>
      city (make_record p t) = parts_of t ! 0 \<and> region (make_record p t) = [] \<and>
      country (make_record p t) = parts_of t ! 1) \<and>
   (3 \<le> length (parts_of t) \<longrightarrow>
      city (make_record p t) = parts_of t ! 0 \<and> region (make_record p t) = parts_of t ! 1 \<and>
      country (make_record p t) = join (js '', '') (drop 2 (parts_of t))) \<and>
   (t \<in> set (normalize locations) \<and> 44 \<notin> set t \<longrightarrow>
      city (make_record p t) = t \<and> region (make_record p t) = [] \<and>
      country (make_record p t) = []) \<and>
   city (make_record p (js ''Golden Gate Bridge, San Francisco, 37.8199, -122.4783''))
     = js ''Golden Gate Bridge'' \<and>
   region (make_record p (js ''Golden Gate Bridge, San Francisco, 37.8199, -122.4783''))
     = js ''San Francisco'' \<and>
   country (make_record p (js ''Golden Gate Bridge, San Francisco, 37.8199, -122.4783''))
     = js ''37.8199, -122.4783'' \<and>
   latitude (make_record p (js ''Golden Gate Bridge, San Francisco, 37.8199, -122.4783''))
     = Some (378199 / 10000) \<and>
   longitude (make_record p (js ''Golden Gate Bridge, San Francisco, 37.8199, -122.4783''))
     = Some (- 1224783 / 10000)"
proof -
  have none: "parts_of t = [] \<longrightarrow>
      city (make_record p t) = [] \<and> region (make_record p t) = [] \<and>
      country (make_record p t) = []"
    by (simp add: record_fields city_of_def region_of_def country_of_def)
  have one: "length (parts_of t) = 1 \<longrightarrow>
      city (make_record p t) = parts_of t ! 0 \<and> region (make_record p t) = [] \<and>
      country (make_record p t) = []"
    by (simp add: record_fields city_of_def region_of_def country_of_def)
  have two: "length (parts_of t) = 2 \<longrightarrow>
      city (make_record p t) = parts_of t ! 0 \<and> region (make_record p t) = [] \<and>
      country (make_record p t) = parts_of t ! 1"
    by (simp add: record_fields city_of_def region_of_def country_of_def)
  have more: "3 \<le> length (parts_of t) \<longrightarrow>
      city (make_record p t) = parts_of t ! 0 \<and> region (make_record p t) = parts_of t ! 1 \<and>
      country (make_record p t) = join (js '', '') (drop 2 (parts_of t))"
    by (simp add: record_fields city_of_def region_of_def country_of_def)
  have whole: "t \<in> set (normalize locations) \<and> 44 \<notin> set t \<longrightarrow>
      city (make_record p t) = t \<and> region (make_record p t) = [] \<and>
      country (make_record p t) = []"
  proof
    assume "t \<in> set (normalize locations) \<and> 44 \<notin> set t"
    then have "parts_of t = [t]" using parts_of_no_comma by blast
    then show "city (make_record p t) = t \<and> region (make_record p t) = [] \<and>
      country (make_record p t) = []"
      by (simp add: record_fields city_of_def region_of_def country_of_def)
  qed
  from none one two more whole golden_gate_record [of p] show ?thesis by blast
qed

text \<open>
  The phrase of two commas only has no part, \<open>Taj Mahal,\<close> has one, \<open>Paris, France\<close> two
  and \<open>Hollywood, Los Angeles, California, USA\<close> four; \<open>Taj Mahal\<close> is a normalised
  phrase without a comma.
\<close>

theorem C5_fields_from_parts_witness:
  "parts_of (js '',,'') = [] \<and> city (make_record page_paris (js '',,'')) = [] \<and>
   length (parts_of (js ''Taj Mahal,'')) = 1 \<and>
   city (make_record page_paris (js ''Taj Mahal,'')) = js ''Taj Mahal'' \<and>
   country (make_record page_paris (js ''Taj Mahal,'')) = [] \<and>
   length (parts_of (js ''Paris, France'')) = 2 \<and>
   city (make_record page_paris (js ''Paris, France'')) = js ''Paris'' \<and>
   region (make_record page_paris (js ''Paris, France'')) = [] \<and>
   country (make_record page_paris (js ''Paris, France'')) = js ''France'' \<and>
   3 \<le> length (parts_of (js ''Hollywood, Los Angeles, California, USA'')) \<and>
   city (make_record page_paris (js ''Hollywood, Los Angeles, California, USA''))
     = js ''Hollywood'' \<and>
   region (make_record page_paris (js ''Hollywood, Los Angeles, California, USA''))
     = js ''Los Angeles'' \<and>
   country (make_record page_paris (js ''Hollywood, Los Angeles, California, USA''))
     = js ''California, USA'' \<and>
   js ''Taj Mahal'' \<in> set (normalize [js ''Taj  Mahal'']) \<and> 44 \<notin> set (js ''Taj Mahal'') \<and>
   city (make_record page_paris (js ''Taj Mahal'')) = js ''Taj Mahal''"
  using C5_fields_from_parts [of "js '',,''" page_paris "[js ''Taj  Mahal'']"]
    C5_fields_from_parts [of "js ''Taj Mahal,''" page_paris "[]"]
    C5_fields_from_parts [of "js ''Paris, France''" page_paris "[]"]
    C5_fields_from_parts [of "js ''Hollywood, Los Angeles, California, USA''" page_paris "[]"]
    C5_fields_from_parts [of "js ''Taj Mahal''" page_paris "[js ''Taj  Mahal'']"]
  by (simp add: record_fields parts_of_def city_of_def region_of_def country_of_def
      normalize_def clean_def char_defs pattern_defs string_defs)

text \<open>
  The normalised phrase \<open>,Paris\<close> is split at its comma into an empty piece and
  \<open>Paris\<close>. Its record has the city \<open>Paris\<close>: neither the whole phrase, as for a phrase of
  one segment, nor the first piece with the second as the country, as for one of two.
\<close>

theorem C5_empty_piece_dropped:
  "normalize [js '',Paris''] = [js '',Paris''] \<and>
   split_char 44 (js '',Paris'') = [[], js ''Paris''] \<and>
   parts_of (js '',Paris'') = [js ''Paris''] \<and>
   city (make_record page_paris (js '',Paris'')) = js ''Paris'' \<and>
   city (make_record page_paris (js '',Paris'')) \<noteq> js '',Paris'' \<and>
   country (make_record page_paris (js '',Paris'')) = []"
  by (simp add: record_fields parts_of_def city_of_def region_of_def country_of_def
      normalize_def clean_def char_defs pattern_defs string_defs)

section \<open>The order of the strategies\<close>

lemma first_occurrences_append:
  "first_occurrences (xs @ ys)
     = first_occurrences xs @ filter (\<lambda>y. y \<notin> set xs) (first_occurrences ys)"
proof (induction xs)
  case Nil
  then show ?case by (simp add: first_occurrences_Nil)
next
  case (Cons x xs)
  have "filter (\<lambda>y. y \<noteq> x) (filter (\<lambda>y. y \<notin> set xs) zs)
          = filter (\<lambda>y. y \<notin> set (x # xs)) zs" for zs
    by (induction zs) auto
  with Cons show ?case by (simp add: first_occurrences_Cons)
qed

text \<open>
  Normalising a list put in front of another: its normalised phrases come first, then the
  normalised phrases of the other list that are new.
\<close>

lemma normalize_append:
  "normalize (xs @ ys)
     = normalize xs @ filter (\<lambda>t. t \<notin> set (normalize xs)) (normalize ys)"
proof -
  let ?F = "\<lambda>zs. filter (\<lambda>t. 3 \<le> length t) (map clean zs)"
  have "filter (\<lambda>y. y \<notin> set (?F xs)) zs = filter (\<lambda>t. t \<notin> set (normalize xs)) zs" for zs
    by (simp add: normalize_eq set_first_occurrences)
  then show ?thesis
    by (simp add: normalize_eq first_occurrences_append)
qed

lemma wikiLocations_wikitext:
  "wikiLocations p \<noteq> [] \<Longrightarrow> \<exists>w. wikitext p = Some w \<and> w \<noteq> []"
  by (cases "wikitext p")
     (auto simp: wikiLocations_def findFilmingLocationsFromWikiWikitext_def split: if_splits)

text \<open>With the markup path enabled and not empty, its lines are put in front.\<close>

lemma candidates_markup_first:
  assumes "useWikipediaApi inp" and "includes_str (url p) (js ''wikipedia.org'')"
    and "wikiLocations p \<noteq> []"
  shows "candidates inp p
           = wikiLocations p @ fallback_strategy p (layout_strategy p (dom_strategy p))"
proof -
  from assms(3) obtain w where "wikitext p = Some w" "w \<noteq> []"
    using wikiLocations_wikitext by blast
  with assms show ?thesis by (simp add: candidates_def wiki_strategy_def)
qed

text \<open>
  In every other run (the option off, another URL, no markup fetched, or no line found in
  it) the candidates are those of the other strategies alone.
\<close>

lemma candidates_without_markup:
  assumes "\<not> (useWikipediaApi inp \<and> includes_str (url p) (js ''wikipedia.org'') \<and>
              wikiLocations p \<noteq> [])"
  shows "candidates inp p = fallback_strategy p (layout_strategy p (dom_strategy p))"
proof (cases "useWikipediaApi inp \<and> includes_str (url p) (js ''wikipedia.org'')")
  case False
  then show ?thesis by (auto simp: candidates_def wiki_strategy_def)
next
  case True
  with assms have "wikiLocations p = []" by blast
  then show ?thesis
    by (cases "wikitext p") (simp_all add: candidates_def wiki_strategy_def)
qed

text \<open>
  Claim C6. In every run of a page the candidates are built in this order. The paragraph
  scan adds its phrases only when the heading and the listing strategies have found
  nothing, and then they are all the phrases found so far. When the markup path is enabled
  (the option is on and the URL contains \<open>wikipedia.org\<close>) and returns lines, these are
  put in front of the phrases of the other strategies: the normalised phrases are those of
  the markup, then the new ones among those of the other strategies, both in the order of
  first occurrence. In every other run the candidates are the phrases of the other
  strategies and nothing else. The records carry the first 200 normalised phrases.
\<close>

theorem C6_strategy_order:
  "(layout_strategy p (dom_strategy p) \<noteq> [] \<longrightarrow>
      fallback_strategy p (layout_strategy p (dom_strategy p))
        = layout_strategy p (dom_strategy p)) \<and>
   (layout_strategy p (dom_strategy p) = [] \<longrightarrow>
      fallback_strategy p (layout_strategy p (dom_strategy p)) = fallbackMatches p) \<and>
   (useWikipediaApi inp \<and> includes_str (url p) (js ''wikipedia.org'') \<and> wikiLocations p \<noteq> [] \<longrightarrow>
      candidates inp p
        = wikiLocations p @ fallback_strategy p (layout_strategy p (dom_strategy p)) \<and>
      normalize (candidates inp p)
        = normalize (wikiLocations p) @
          filter (\<lambda>t. t \<notin> set (normalize (wikiLocations p)))
            (normalize (fallback_strategy p (layout_strategy p (dom_strategy p))))) \<and>
   (\<not> (useWikipediaApi inp \<and> includes_str (url p) (js ''wikipedia.org'') \<and>
       wikiLocations p \<noteq> []) \<longrightarrow>
      candidates inp p = fallback_strategy p (layout_strategy p (dom_strategy p))) \<and>
   map location_text (fst (extractFromCheerio inp p)) = take 200 (normalize (candidates inp p))"
proof (intro conjI impI)
  assume "layout_strategy p (dom_strategy p) \<noteq> []"
  then show "fallback_strategy p (layout_strategy p (dom_strategy p))
        = layout_strategy p (dom_strategy p)"
    by (simp add: fallback_strategy_def)
next
  assume "layout_strategy p (dom_strategy p) = []"
  then show "fallback_strategy p (layout_strategy p (dom_strategy p)) = fallbackMatches p"
    by (simp add: fallback_strategy_def)
next
  assume h: "useWikipediaApi inp \<and> includes_str (url p) (js ''wikipedia.org'') \<and> wikiLocations p \<noteq> []"
  then show c: "candidates inp p
        = wikiLocations p @ fallback_strategy p (layout_strategy p (dom_strategy p))"
    using candidates_markup_first by blast
  show "normalize (candidates inp p)
        = normalize (wikiLocations p) @
          filter (\<lambda>t. t \<notin> set (normalize (wikiLocations p)))
            (normalize (fallback_strategy p (layout_strategy p (dom_strategy p))))"
    unfolding c by (rule normalize_append)
next
  assume "\<not> (useWikipediaApi inp \<and> includes_str (url p) (js ''wikipedia.org'') \<and>
       wikiLocations p \<noteq> [])"
  then show "candidates inp p = fallback_strategy p (layout_strategy p (dom_strategy p))"
    by (rule candidates_without_markup)
next
  show "map location_text (fst (extractFromCheerio inp p)) = take 200 (normalize (candidates inp p))"
    by (simp add: extractFromCheerio_def Let_def location_text_records)
qed

text \<open>
  The article \<open>page_article\<close>: the two lines of the markup come first, then the two
  phrases under the heading; its paragraph is not scanned. With the markup path switched
  off the candidates are the two phrases under the heading. The page \<open>page_plain\<close>:
  nothing is found under a heading or in a listing, its URL is not of the encyclopedia,
  and the candidates are the one phrase of the paragraph scan.
\<close>

lemma article_strategies:
  "dom_strategy page_article = [js ''Paris, France'', js ''London, UK'']"
  "layout_strategy page_article [js ''Paris, France'', js ''London, UK'']
     = [js ''Paris, France'', js ''London, UK'']"
  "fallbackMatches page_article = [js ''The location of the shoot was Paris.'']"
  "wikiLocations page_article = [js ''== Filming locations =='', js ''* Paris'']"
  "includes_str (url page_article) (js ''wikipedia.org'')"
  by (simp_all add: page_article_def markup_paris_def handler_defs char_defs pattern_defs
      string_defs)

lemma plain_strategies:
  "dom_strategy page_plain = []"
  "layout_strategy page_plain [] = []"
  "fallbackMatches page_plain = [js ''Locations used: Tangier, Morocco'']"
  by (simp_all add: page_plain_def handler_defs char_defs pattern_defs string_defs)

lemma article_normalized:
  "normalize [js ''== Filming locations =='', js ''* Paris'', js ''Paris, France'',
     js ''London, UK'']
   = [js ''== Filming locations =='', js ''* Paris'', js ''Paris, France'', js ''London, UK'']"
  by (simp add: normalize_def clean_def char_defs pattern_defs string_defs)

lemma article_phrases_normalized:
  "normalize [js ''Paris, France'', js ''London, UK''] = [js ''Paris, France'', js ''London, UK'']"
  by (simp add: normalize_def clean_def char_defs pattern_defs string_defs)

lemma plain_url: "\<not> includes_str (url page_plain) (js ''wikipedia.org'')"
  by (simp add: page_plain_def char_defs)

theorem C6_strategy_order_witness:
  "layout_strategy page_article (dom_strategy page_article) \<noteq> [] \<and>
   fallback_strategy page_article (layout_strategy page_article (dom_strategy page_article))
     = [js ''Paris, France'', js ''London, UK''] \<and>
   layout_strategy page_plain (dom_strategy page_plain) = [] \<and>
   fallback_strategy page_plain (layout_strategy page_plain (dom_strategy page_plain))
     = [js ''Locations used: Tangier, Morocco''] \<and>
   useWikipediaApi input_default \<and> includes_str (url page_article) (js ''wikipedia.org'') \<and>
   wikiLocations page_article \<noteq> [] \<and>
   candidates input_default page_article
     = [js ''== Filming locations =='', js ''* Paris'', js ''Paris, France'', js ''London, UK''] \<and>
   map location_text (fst (extractFromCheerio input_default page_article))
     = [js ''== Filming locations =='', js ''* Paris'', js ''Paris, France'', js ''London, UK''] \<and>
   \<not> useWikipediaApi input_no_markup \<and>
   candidates input_no_markup page_article = [js ''Paris, France'', js ''London, UK''] \<and>
   map location_text (fst (extractFromCheerio input_no_markup page_article))
     = [js ''Paris, France'', js ''London, UK''] \<and>
   \<not> includes_str (url page_plain) (js ''wikipedia.org'') \<and>
   candidates input_default page_plain = [js ''Locations used: Tangier, Morocco'']"
  using C6_strategy_order [of page_article input_default]
    C6_strategy_order [of page_plain input_default]
    C6_strategy_order [of page_article input_no_markup]
  by (simp add: article_strategies plain_strategies article_normalized
      article_phrases_normalized plain_url input_default_def input_no_markup_def
      fallback_strategy_def)

section \<open>What a match consumes\<close>

text \<open>
  A repetition over a character set consumes a run of code units of the set whose length
  is within the bounds.
\<close>

lemma repeat_cs_sound:
  "r' \<in> set (repeat_cs g lo hi cs x) \<Longrightarrow>
     \<exists>w. x = w @ r' \<and> list_all (member_cs cs) w \<and> lo \<le> length w \<and>
         (case hi of None \<Rightarrow> True | Some h \<Rightarrow> length w \<le> h)"
proof (induction x arbitrary: lo hi)
  case Nil
  then show ?case by (auto split: if_splits option.splits)
next
  case (Cons c x)
  from Cons.prems consider
      (stop) "lo = 0" "r' = c # x"
    | (more) "hi \<noteq> Some 0" "member_cs cs c"
        "r' \<in> set (repeat_cs g (lo - 1) (map_option (\<lambda>h. h - 1) hi) cs x)"
    by (auto simp: Let_def split: if_splits)
  then show ?case
  proof cases
    case stop
    then show ?thesis by (auto split: option.splits)
  next
    case more
    from Cons.IH [OF more(3)] obtain w where w: "x = w @ r'" "list_all (member_cs cs) w"
      "lo - 1 \<le> length w" "case map_option (\<lambda>h. h - 1) hi of None \<Rightarrow> True | Some h \<Rightarrow> length w \<le> h"
      by blast
    have "c # x = (c # w) @ r'" using w(1) by simp
    moreover have "list_all (member_cs cs) (c # w)" using w(2) more(2) by simp
    moreover have "lo \<le> length (c # w)" using w(3) by simp
    moreover have "case hi of None \<Rightarrow> True | Some h \<Rightarrow> length (c # w) \<le> h"
      using w(4) more(1) by (cases hi) auto
    ultimately show ?thesis by blast
  qed
qed

text \<open>Membership in the list of ways to match, construct by construct.\<close>

lemma in_matches_Then:
  "s' \<in> set (matches (Then a b) s) \<longleftrightarrow> (\<exists>s1 \<in> set (matches a s). s' \<in> set (matches b s1))"
  by auto

lemma in_matches_Chars:
  "(r', k') \<in> set (matches (Chars cs) (x, k)) \<longleftrightarrow> k' = k \<and> (\<exists>c. x = c # r' \<and> member_cs cs c)"
  by (cases x) auto

lemma in_matches_Repeat:
  "(r', k') \<in> set (matches (Repeat g lo hi cs) (x, k)) \<longleftrightarrow>
     k' = k \<and> r' \<in> set (repeat_cs g lo hi cs x)"
  by auto

lemma in_matches_Capture:
  "(r', k') \<in> set (matches (Capture i a) (x, k)) \<longleftrightarrow>
     (\<exists>k1. (r', k1) \<in> set (matches a (x, k)) \<and> k' = k1(i \<mapsto> take (length x - length r') x))"
  by force

lemma in_matches_Maybe:
  "s' \<in> set (matches (Maybe a) (x, k)) \<longleftrightarrow>
     s' = (x, k) \<or> (s' \<in> set (matches a (x, k)) \<and> length (fst s') \<noteq> length x)"
  by auto

text \<open>A search that succeeds ends a match started at some position of the text.\<close>

lemma search_sound:
  "search r x = Some s' \<Longrightarrow> \<exists>pre y. x = pre @ y \<and> s' \<in> set (matches r (y, Map.empty))"
proof (induction x)
  case Nil
  then show ?case by (auto split: list.splits)
next
  case (Cons c x)
  show ?case
  proof (cases "matches r (c # x, Map.empty)")
    case Nil
    with Cons.prems have "search r x = Some s'" by simp
    from Cons.IH [OF this] obtain pre y where "x = pre @ y" "s' \<in> set (matches r (y, Map.empty))"
      by blast
    then have "c # x = (c # pre) @ y" by simp
    with \<open>s' \<in> set (matches r (y, Map.empty))\<close> show ?thesis by blast
  next
    case (Cons s ss)
    with Cons.prems have "s' = s" by simp
    with Cons have "s' \<in> set (matches r (c # x, Map.empty))" by simp
    then show ?thesis by (metis append_Nil)
  qed
qed

lemma test_search: "test r x \<longleftrightarrow> (\<exists>rest k. search r x = Some (rest, k))"
  by (auto simp: test_def)

section \<open>The decimal branch\<close>

lemma member_digits: "member_cs (Pos digit_ranges) = is_digit"
  by (auto simp: is_digit_def)

lemma member_minus: "member_cs (Pos [(45, 45)]) c \<longleftrightarrow> c = 45"
  by auto

lemma list_all_minus: "list_all (member_cs (Pos [(45, 45)])) n \<Longrightarrow> length n \<le> 1 \<Longrightarrow> n = [] \<or> n = [45]"
  by (cases n) auto

text \<open>
  A match of \<open>-?\d{1,3}\.\d+\<close> consumes an optional minus sign, one to three digits, a
  point and at least one digit, and leaves the captures as they are.
\<close>

lemma decNumber_match:
  assumes "(r', k') \<in> set (matches decNumber (x, k))"
  shows "k' = k \<and> (\<exists>n d f. x = n @ d @ [46] @ f @ r' \<and> (n = [] \<or> n = [45]) \<and>
           list_all is_digit d \<and> 1 \<le> length d \<and> length d \<le> 3 \<and>
           list_all is_digit f \<and> 1 \<le> length f)"
proof -
  from assms obtain x1 x2 x3 where
    1: "x1 \<in> set (repeat_cs True 0 (Some 1) (Pos [(45, 45)]) x)" and
    2: "x2 \<in> set (repeat_cs True 1 (Some 3) (Pos digit_ranges) x1)" and
    3: "x2 = 46 # x3" and
    4: "r' \<in> set (repeat_cs True 1 None (Pos digit_ranges) x3)" and
    k: "k' = k"
    by (auto simp: decNumber_def ch_def in_matches_Then in_matches_Repeat in_matches_Chars
        simp del: matches.simps repeat_cs.simps)
  from repeat_cs_sound [OF 1] obtain n where n: "x = n @ x1" "n = [] \<or> n = [45]"
    using list_all_minus by auto
  from repeat_cs_sound [OF 2] obtain d where d: "x1 = d @ x2" "list_all is_digit d"
    "1 \<le> length d" "length d \<le> 3"
    by (auto simp: member_digits)
  from repeat_cs_sound [OF 4] obtain f where f: "x3 = f @ r'" "list_all is_digit f"
    "1 \<le> length f"
    by (auto simp: member_digits)
  have "x = n @ d @ [46] @ f @ r'" using n(1) d(1) 3 f(1) by simp
  with k n(2) d f show ?thesis by blast
qed

lemma digit_facts:
  "is_digit c \<Longrightarrow> \<not> is_ws c" "is_digit c \<Longrightarrow> c \<noteq> 45" "is_digit c \<Longrightarrow> c \<noteq> 43"
  "is_digit c \<Longrightarrow> c \<noteq> 46" "\<not> is_digit 46" "\<not> is_digit 45" "\<not> is_ws 45" "\<not> is_ws 46"
  by (auto simp: is_digit_def is_ws_def digit_ranges_def ws_ranges_def)

lemma takeWhile_digits:
  "list_all is_digit d \<Longrightarrow> takeWhile is_digit (d @ 46 # f) = d"
  by (induction d) (auto simp: digit_facts)

lemma dropWhile_digits:
  "list_all is_digit d \<Longrightarrow> dropWhile is_digit (d @ 46 # f) = 46 # f"
  by (induction d) (auto simp: digit_facts)

lemma takeWhile_all: "list_all P f \<Longrightarrow> takeWhile P f = f"
  by (induction f) auto

lemma dropWhile_all: "list_all P f \<Longrightarrow> dropWhile P f = []"
  by (induction f) auto

text \<open>\<open>parseFloat\<close> reads a text of the shape of \<open>-?\d+\.\d*\<close> as the number it writes.\<close>

lemma parseFloat_literal:
  assumes "n = [] \<or> n = [45]" and "list_all is_digit d" and "1 \<le> length d"
    and "list_all is_digit f"
  shows "parseFloat (n @ d @ [46] @ f) = Num (sign_of n * decimal d f)"
proof -
  from assms(3) obtain c d' where d: "d = c # d'" by (cases d) auto
  with assms(2) have c: "is_digit c" by simp
  from d assms(2) have d': "list_all is_digit d'" by simp
  note td = takeWhile_digits [OF d', of f]
  note dd = dropWhile_digits [OF d', of f]
  have tf: "takeWhile is_digit f = f" using assms(4) by (rule takeWhile_all)
  from assms(1) show ?thesis
  proof
    assume "n = []"
    then show ?thesis
      using c d digit_facts(1-4) [OF c]
      by (simp add: parseFloat_def Let_def sign_of_def decimal_def td dd tf)
  next
    assume "n = [45]"
    then show ?thesis
      using c d digit_facts
      by (simp add: parseFloat_def Let_def sign_of_def decimal_def td dd tf)
  qed
qed

text \<open>
  A match of the decimal pattern consumes two such numbers with white space and commas
  between them, and captures the numbers.
\<close>

lemma decPattern_match:
  assumes "(r', k') \<in> set (matches decPattern (y, k))"
  shows "\<exists>n1 d1 f1 sep n2 d2 f2.
           y = (n1 @ d1 @ [46] @ f1) @ sep @ (n2 @ d2 @ [46] @ f2) @ r' \<and>
           k' 1 = Some (n1 @ d1 @ [46] @ f1) \<and> k' 2 = Some (n2 @ d2 @ [46] @ f2) \<and>
           (n1 = [] \<or> n1 = [45]) \<and> list_all is_digit d1 \<and> 1 \<le> length d1 \<and> length d1 \<le> 3 \<and>
           list_all is_digit f1 \<and> 1 \<le> length f1 \<and>
           (n2 = [] \<or> n2 = [45]) \<and> list_all is_digit d2 \<and> 1 \<le> length d2 \<and> length d2 \<le> 3 \<and>
           list_all is_digit f2 \<and> 1 \<le> length f2 \<and>
           sep \<noteq> [] \<and> list_all (\<lambda>c. c = 44 \<or> is_ws c) sep"
proof -
  from assms obtain x1 ka x2 c x3 x4 kb where
    1: "(x1, ka) \<in> set (matches decNumber (y, k))" and
    2: "x2 \<in> set (repeat_cs True 0 None (Pos ws_ranges) x1)" and
    3: "x2 = c # x3" "member_cs (Pos ((44, 44) # ws_ranges)) c" and
    4: "x4 \<in> set (repeat_cs True 0 None (Pos ws_ranges) x3)" and
    5: "(r', kb) \<in> set (matches decNumber (x4, ka(1 \<mapsto> take (length y - length x1) y)))" and
    k': "k' = kb(2 \<mapsto> take (length x4 - length r') x4)"
    by (auto simp: decPattern_def in_matches_Then in_matches_Repeat in_matches_Chars
        in_matches_Capture simp del: matches.simps repeat_cs.simps)
  from decNumber_match [OF 1] obtain n1 d1 f1 where g1: "ka = k"
    "y = n1 @ d1 @ [46] @ f1 @ x1" "n1 = [] \<or> n1 = [45]" "list_all is_digit d1"
    "1 \<le> length d1" "length d1 \<le> 3" "list_all is_digit f1" "1 \<le> length f1"
    by blast
  from decNumber_match [OF 5] obtain n2 d2 f2 where g2:
    "kb = ka(1 \<mapsto> take (length y - length x1) y)"
    "x4 = n2 @ d2 @ [46] @ f2 @ r'" "n2 = [] \<or> n2 = [45]" "list_all is_digit d2"
    "1 \<le> length d2" "length d2 \<le> 3" "list_all is_digit f2" "1 \<le> length f2"
    by blast
  from repeat_cs_sound [OF 2] obtain w1 where w1: "x1 = w1 @ x2" "list_all is_ws w1"
    by (auto simp: member_ws)
  from repeat_cs_sound [OF 4] obtain w2 where w2: "x3 = w2 @ x4" "list_all is_ws w2"
    by (auto simp: member_ws)
  from 3(2) have c: "c = 44 \<or> is_ws c" by (auto simp: is_ws_def)
  let ?sep = "w1 @ [c] @ w2"
  have "take (length y - length x1) y = n1 @ d1 @ [46] @ f1" using g1(2) by simp
  then have c1: "k' 1 = Some (n1 @ d1 @ [46] @ f1)" using k' g2(1) by simp
  have "take (length x4 - length r') x4 = n2 @ d2 @ [46] @ f2" using g2(2) by simp
  then have c2: "k' 2 = Some (n2 @ d2 @ [46] @ f2)" using k' by simp
  have y: "y = (n1 @ d1 @ [46] @ f1) @ ?sep @ (n2 @ d2 @ [46] @ f2) @ r'"
    using g1(2) w1(1) 3(1) w2(1) g2(2) by simp
  have sep: "?sep \<noteq> []" "list_all (\<lambda>c. c = 44 \<or> is_ws c) ?sep"
    using w1(2) w2(2) c by (auto simp: list_all_iff)
  from y c1 c2 g1(3-8) g2(3-8) sep show ?thesis by blast
qed

text \<open>The text of a signed number of that shape, and the number it writes.\<close>

lemma signed_literal:
  assumes "n = [] \<or> n = [45]" and "list_all is_digit d" and "1 \<le> length d" and "length d \<le> 3"
    and "list_all is_digit f" and "1 \<le> length f"
  shows "signed_group (n @ d @ [46] @ f)"
    and "signed_reading (n @ d @ [46] @ f) = sign_of n * decimal d f"
proof -
  from assms(3) obtain c d' where d: "d = c # d'" by (cases d) auto
  with assms(2) have c: "is_digit c" and d': "list_all is_digit d'" by auto
  from assms(6) have f: "f \<noteq> []" by auto
  note td = takeWhile_digits [OF d', of f] and dd = dropWhile_digits [OF d', of f]
  note tD = takeWhile_digits [OF assms(2), of f] and dD = dropWhile_digits [OF assms(2), of f]
  from assms(1) show "signed_group (n @ d @ [46] @ f)"
  proof
    assume "n = []"
    then show ?thesis
      using c d digit_facts(2) [OF c] assms(3,4,5) f
      by (simp add: signed_group_def Let_def td dd)
  next
    assume "n = [45]"
    then show ?thesis
      using assms(3,4,5) f by (simp add: signed_group_def Let_def tD dD)
  qed
  from assms(1) show "signed_reading (n @ d @ [46] @ f) = sign_of n * decimal d f"
  proof
    assume "n = []"
    then show ?thesis
      using c d digit_facts(2) [OF c]
      by (simp add: signed_reading_def reading_def sign_of_def td dd)
  next
    assume "n = [45]"
    then show ?thesis
      by (simp add: signed_reading_def reading_def sign_of_def tD dD)
  qed
qed

text \<open>A search that succeeds ends the first way to match at the leftmost position.\<close>

lemma search_leftmost:
  "search r x = Some s' \<Longrightarrow>
     \<exists>pre y. x = pre @ y \<and> s' \<in> set (matches r (y, Map.empty)) \<and>
       (\<forall>i < length pre. matches r (drop i x, Map.empty) = [])"
proof (induction x)
  case Nil
  then show ?case by (auto split: list.splits)
next
  case (Cons c x)
  show ?case
  proof (cases "matches r (c # x, Map.empty)")
    case Nil
    with Cons.prems have "search r x = Some s'" by simp
    from Cons.IH [OF this] obtain pre y where py: "x = pre @ y"
      "s' \<in> set (matches r (y, Map.empty))"
      "\<forall>i < length pre. matches r (drop i x, Map.empty) = []"
      by blast
    have "c # x = (c # pre) @ y" using py(1) by simp
    moreover have "\<forall>i < length (c # pre). matches r (drop i (c # x), Map.empty) = []"
    proof (intro allI impI)
      fix i
      assume i: "i < length (c # pre)"
      show "matches r (drop i (c # x), Map.empty) = []"
      proof (cases i)
        case 0
        with Nil show ?thesis by simp
      next
        case (Suc j)
        with i have "j < length pre" by simp
        with py(3) Suc show ?thesis by simp
      qed
    qed
    ultimately show ?thesis using py(2) by blast
  next
    case (Cons s ss)
    with Cons.prems have "s' = s" by simp
    with Cons have "c # x = [] @ (c # x)" "s' \<in> set (matches r (c # x, Map.empty))"
      "\<forall>i < length ([] :: jsstring). matches r (drop i (c # x), Map.empty) = []"
      by simp_all
    then show ?thesis by blast
  qed
qed

text \<open>
  Claim C10, as amended. Whenever the decimal pattern matches, the parser returns the two
  numbers captured by the leftmost match, whatever else the text holds. The two captured
  texts are written with an optional minus sign, one to three digits, a point and at least
  one digit; they stand in the text with only white space and commas between them, and no
  match starts before the first of them. The latitude and the longitude are exactly the
  numbers these two texts write, with their signs as written. The
  degrees-minutes-seconds branch is not consulted, and no hemisphere letter is read.
\<close>

theorem C10_decimal_branch_first:
  "test decPattern text \<longrightarrow>
     (\<exists>rest k g1 g2 pre sep.
        search decPattern text = Some (rest, k) \<and> k 1 = Some g1 \<and> k 2 = Some g2 \<and>
        signed_group g1 \<and> signed_group g2 \<and>
        text = pre @ g1 @ sep @ g2 @ rest \<and>
        sep \<noteq> [] \<and> list_all (\<lambda>c. c = 44 \<or> is_ws c) sep \<and>
        (\<forall>i < length pre. matches decPattern (drop i text, Map.empty) = []) \<and>
        tryParseCoordinates text
          = Some (Coords (Num (signed_reading g1)) (Num (signed_reading g2))))"
proof
  assume "test decPattern text"
  then obtain rest k where s: "search decPattern text = Some (rest, k)"
    by (auto simp: test_search)
  from search_leftmost [OF s] obtain pre y where y: "text = pre @ y"
    "(rest, k) \<in> set (matches decPattern (y, Map.empty))"
    "\<forall>i < length pre. matches decPattern (drop i text, Map.empty) = []"
    by blast
  from decPattern_match [OF y(2)] obtain n1 d1 f1 sep n2 d2 f2 where m:
    "y = (n1 @ d1 @ [46] @ f1) @ sep @ (n2 @ d2 @ [46] @ f2) @ rest"
    "k 1 = Some (n1 @ d1 @ [46] @ f1)" "k 2 = Some (n2 @ d2 @ [46] @ f2)"
    "n1 = [] \<or> n1 = [45]" "list_all is_digit d1" "1 \<le> length d1" "length d1 \<le> 3"
    "list_all is_digit f1" "1 \<le> length f1"
    "n2 = [] \<or> n2 = [45]" "list_all is_digit d2" "1 \<le> length d2" "length d2 \<le> 3"
    "list_all is_digit f2" "1 \<le> length f2"
    "sep \<noteq> []" "list_all (\<lambda>c. c = 44 \<or> is_ws c) sep"
    by blast
  define g1 where "g1 = n1 @ d1 @ [46] @ f1"
  define g2 where "g2 = n2 @ d2 @ [46] @ f2"
  have sg: "signed_group g1" "signed_group g2"
    unfolding g1_def g2_def
    using signed_literal(1) [OF m(4-9)] signed_literal(1) [OF m(10-15)] by blast+
  have sr: "signed_reading g1 = sign_of n1 * decimal d1 f1"
    "signed_reading g2 = sign_of n2 * decimal d2 f2"
    unfolding g1_def g2_def
    using signed_literal(2) [OF m(4-9)] signed_literal(2) [OF m(10-15)] by blast+
  have p1: "parseFloat g1 = Num (signed_reading g1)"
    using parseFloat_literal [OF m(4,5,6,8)] sr(1) by (simp add: g1_def)
  have p2: "parseFloat g2 = Num (signed_reading g2)"
    using parseFloat_literal [OF m(10,11,12,14)] sr(2) by (simp add: g2_def)
  have k: "k 1 = Some g1" "k 2 = Some g2" using m(2,3) by (simp_all add: g1_def g2_def)
  have r: "tryParseCoordinates text
          = Some (Coords (Num (signed_reading g1)) (Num (signed_reading g2)))"
    unfolding tryParseCoordinates_def Let_def s using k p1 p2 by simp
  have t: "text = pre @ g1 @ sep @ g2 @ rest"
    using y(1) m(1) by (simp add: g1_def g2_def)
  from s k sg t m(16,17) y(3) r show "\<exists>rest k g1 g2 pre sep.
        search decPattern text = Some (rest, k) \<and> k 1 = Some g1 \<and> k 2 = Some g2 \<and>
        signed_group g1 \<and> signed_group g2 \<and>
        text = pre @ g1 @ sep @ g2 @ rest \<and>
        sep \<noteq> [] \<and> list_all (\<lambda>c. c = 44 \<or> is_ws c) sep \<and>
        (\<forall>i < length pre. matches decPattern (drop i text, Map.empty) = []) \<and>
        tryParseCoordinates text
          = Some (Coords (Num (signed_reading g1)) (Num (signed_reading g2)))"
    by blast
qed

text \<open>
  In \<open>37.7749, 122.4194 W\<close> the pattern matches, and the longitude is 122.4194 whatever
  the letter after it says. In \<open>-12.5, 3.75 and 7.5, 8.5\<close> the first pair is captured and
  returned, with its minus sign.
\<close>

lemma trailing_w_captures:
  "map_option (\<lambda>(rest, k). (rest, k 1, k 2)) (search decPattern text_trailing_w)
     = Some (js '' W'', Some (js ''37.7749''), Some (js ''122.4194''))"
  by (simp add: text_trailing_w_def char_defs pattern_defs string_defs)

lemma two_pairs_captures:
  "map_option (\<lambda>(rest, k). (rest, k 1, k 2)) (search decPattern text_two_pairs)
     = Some (js '' and 7.5, 8.5'', Some (js ''-12.5''), Some (js ''3.75''))"
  by (simp add: text_two_pairs_def char_defs pattern_defs string_defs)

theorem C10_decimal_branch_first_witness:
  "test decPattern text_trailing_w \<and>
   map_option (\<lambda>(rest, k). (rest, k 1, k 2)) (search decPattern text_trailing_w)
     = Some (js '' W'', Some (js ''37.7749''), Some (js ''122.4194'')) \<and>
   signed_group (js ''37.7749'') \<and> signed_group (js ''122.4194'') \<and>
   signed_reading (js ''37.7749'') = 377749 / 10000 \<and>
   signed_reading (js ''122.4194'') = 1224194 / 10000 \<and>
   tryParseCoordinates text_trailing_w
     = Some (Coords (Num (377749 / 10000)) (Num (1224194 / 10000))) \<and>
   test decPattern text_two_pairs \<and>
   map_option (\<lambda>(rest, k). (rest, k 1, k 2)) (search decPattern text_two_pairs)
     = Some (js '' and 7.5, 8.5'', Some (js ''-12.5''), Some (js ''3.75'')) \<and>
   signed_reading (js ''-12.5'') = - (25 / 2) \<and> signed_reading (js ''3.75'') = 15 / 4 \<and>
   tryParseCoordinates text_two_pairs = Some (Coords (Num (- (25 / 2))) (Num (15 / 4)))"
  using C10_decimal_branch_first [of text_trailing_w] C10_decimal_branch_first [of text_two_pairs]
  by (simp add: trailing_w_captures two_pairs_captures)
     (simp add: text_trailing_w_def text_two_pairs_def tryParseCoordinates_def
      signed_group_def signed_reading_def reading_def decimal_def char_defs pattern_defs
      string_defs number_defs)

text \<open>
  In the text \<open>text_degrees\<close>, the example of the claim, a degree sign follows each
  number, so neither pattern matches and the parser returns \<open>null\<close>, not a longitude of
  122.4194. In \<open>1234.5, 2.5\<close> the pattern matches from the second digit on, and the
  latitude is 234.5, not the number 1234.5 of the text.
\<close>

theorem C10_degree_signs_not_matched:
  "\<not> test decPattern text_degrees \<and> tryParseCoordinates text_degrees = None \<and>
   tryParseCoordinates text_four_digits = Some (Coords (Num (469 / 2)) (Num (5 / 2))) \<and>
   tryParseCoordinates text_four_digits \<noteq> Some (Coords (Num (2469 / 2)) (Num (5 / 2)))"
  by (simp add: text_degrees_def text_four_digits_def tryParseCoordinates_def char_defs
      pattern_defs string_defs number_defs)

section \<open>The degrees-minutes-seconds branch\<close>

text \<open>\<open>Number\<close> reads a group of digits, with or without a fraction, as the number it writes.\<close>

lemma trim_digits:
  assumes "is_digit (hd g)" and "is_digit (last g)"
  shows "trim g = g"
  by (rule trim_fixed) (use assms digit_facts(1) in blast)

lemma Number_digits:
  assumes "list_all is_digit d" and "d \<noteq> []"
  shows "Number (Some d) = Num (reading (Some d))"
proof -
  from assms have "is_digit (hd d)" "is_digit (last d)" by (auto simp: list_all_iff)
  then have t: "trim d = d" by (rule trim_digits)
  from assms obtain c d' where d: "d = c # d'" by (cases d) auto
  with assms have c: "is_digit c" and d': "list_all is_digit d'" by auto
  note tw = takeWhile_all [OF d'] and dw = dropWhile_all [OF d']
  have "is_decimal_literal (c # d')"
    using c digit_facts(2,3) [OF c] by (simp add: is_decimal_literal_def Let_def tw dw)
  moreover have "parseFloat (c # d') = Num (reading (Some (c # d')))"
    using c digit_facts(1-3) [OF c]
    by (simp add: parseFloat_def Let_def tw dw reading_def decimal_def digits_value_def)
  ultimately show ?thesis using t d by (simp add: Number_def Let_def)
qed

lemma Number_fraction:
  assumes "list_all is_digit s" and "s \<noteq> []" and "list_all is_digit f" and "f \<noteq> []"
  shows "Number (Some (s @ 46 # f)) = Num (reading (Some (s @ 46 # f)))"
proof -
  from assms have "is_digit (hd (s @ 46 # f))" "is_digit (last (s @ 46 # f))"
    by (auto simp: list_all_iff)
  then have t: "trim (s @ 46 # f) = s @ 46 # f" by (rule trim_digits)
  from assms obtain c s' where s: "s = c # s'" by (cases s) auto
  with assms have c: "is_digit c" and s': "list_all is_digit s'" by auto
  note tw = takeWhile_digits [OF s', of f] and dw = dropWhile_digits [OF s', of f]
  have l: "is_decimal_literal (s @ 46 # f)"
    using c digit_facts(2,3) [OF c] assms(3,4) s
    by (simp add: is_decimal_literal_def Let_def tw dw list_all_iff)
  have "parseFloat ([] @ s @ [46] @ f) = Num (sign_of [] * decimal s f)"
    using assms by (intro parseFloat_literal) (auto simp: Suc_le_eq)
  then have p: "parseFloat (s @ 46 # f) = Num (decimal s f)" by (simp add: sign_of_def)
  have "reading (Some (s @ 46 # f)) = decimal s f"
    using takeWhile_digits [OF assms(1), of f] dropWhile_digits [OF assms(1), of f]
    by (simp add: reading_def)
  with l p t show ?thesis using assms(2) by (simp add: Number_def Let_def)
qed

lemma Number_or_0_group:
  assumes "v = None \<or> (\<exists>s t. v = Some (s @ t) \<and> list_all is_digit s \<and> s \<noteq> [] \<and>
             (t = [] \<or> (\<exists>f. t = 46 # f \<and> list_all is_digit f \<and> f \<noteq> [])))"
  shows "Number_or_0 v = Num (reading v)"
proof -
  from assms consider (none) "v = None"
    | (digits) s where "v = Some s" "list_all is_digit s" "s \<noteq> []"
    | (fraction) s f where "v = Some (s @ 46 # f)" "list_all is_digit s" "s \<noteq> []"
        "list_all is_digit f" "f \<noteq> []"
    by auto
  then show ?thesis
  proof cases
    case none
    then show ?thesis by (simp add: Number_or_0_def reading_def)
  next
    case digits
    then show ?thesis by (simp add: Number_or_0_def Number_digits)
  next
    case fraction
    then show ?thesis by (simp add: Number_or_0_def Number_fraction)
  qed
qed

text \<open>What the parts of the pattern capture.\<close>

lemma capture_digits:
  assumes "(r', k') \<in> set (matches (Capture i (Repeat True lo hi (Pos digit_ranges))) (x, k))"
  shows "\<exists>d. x = d @ r' \<and> k' = k(i \<mapsto> d) \<and> list_all is_digit d \<and> lo \<le> length d"
proof -
  from assms have r: "r' \<in> set (repeat_cs True lo hi (Pos digit_ranges) x)"
    and k: "k' = k(i \<mapsto> take (length x - length r') x)"
    by (auto simp: in_matches_Capture in_matches_Repeat simp del: matches.simps repeat_cs.simps)
  from repeat_cs_sound [OF r] obtain d where "x = d @ r'" "list_all is_digit d" "lo \<le> length d"
    by (auto simp: member_digits)
  with k show ?thesis by auto
qed

lemma capture_letter:
  assumes "(r', k') \<in> set (matches (Capture i (Chars (Pos hemi))) (x, k))"
  shows "\<exists>h. x = h # r' \<and> k' = k(i \<mapsto> [h]) \<and> in_ranges h hemi"
  using assms
  by (auto simp: in_matches_Capture in_matches_Chars simp del: matches.simps)

lemma capture_seconds:
  assumes "(r', k') \<in> set (matches
             (Maybe (Capture i
               (Then (Repeat True 1 (Some 2) (Pos digit_ranges))
                     (Maybe (Then (ch 46) (Repeat True 1 None (Pos digit_ranges))))))) (x, k))"
  shows "k' = k \<or> (\<exists>s t. k' = k(i \<mapsto> s @ t) \<and> list_all is_digit s \<and> s \<noteq> [] \<and>
           (t = [] \<or> (\<exists>f. t = 46 # f \<and> list_all is_digit f \<and> f \<noteq> [])))"
proof -
  let ?frac = "Then (ch 46) (Repeat True 1 None (Pos digit_ranges))"
  let ?sec = "Then (Repeat True 1 (Some 2) (Pos digit_ranges)) (Maybe ?frac)"
  from assms have "(r', k') = (x, k) \<or> (r', k') \<in> set (matches (Capture i ?sec) (x, k))"
    unfolding in_matches_Maybe by blast
  then show ?thesis
  proof
    assume "(r', k') = (x, k)"
    then show ?thesis by simp
  next
    assume "(r', k') \<in> set (matches (Capture i ?sec) (x, k))"
    then obtain k1 where k1: "(r', k1) \<in> set (matches ?sec (x, k))"
      and k': "k' = k1(i \<mapsto> take (length x - length r') x)"
      unfolding in_matches_Capture by blast
    from k1 obtain s1 where s1: "s1 \<in> set (matches (Repeat True 1 (Some 2) (Pos digit_ranges)) (x, k))"
      and m: "(r', k1) \<in> set (matches (Maybe ?frac) s1)"
      unfolding in_matches_Then by blast
    obtain x1 ka where s1eq: "s1 = (x1, ka)" by (cases s1)
    from s1 have "(x1, ka) \<in> set (matches (Repeat True 1 (Some 2) (Pos digit_ranges)) (x, k))"
      unfolding s1eq .
    then have ka: "ka = k" and x1: "x1 \<in> set (repeat_cs True 1 (Some 2) (Pos digit_ranges) x)"
      unfolding in_matches_Repeat by blast+
    from repeat_cs_sound [OF x1] obtain s where s0: "x = s @ x1"
      "list_all (member_cs (Pos digit_ranges)) s" "1 \<le> length s"
      by blast
    then have s: "x = s @ x1" "list_all is_digit s" "s \<noteq> []"
      by (auto simp only: member_digits length_0_conv not_one_le_zero list.size)
    from m have "(r', k1) \<in> set (matches (Maybe ?frac) (x1, k))"
      unfolding s1eq ka .
    then have "(r', k1) = (x1, k) \<or> (r', k1) \<in> set (matches ?frac (x1, k))"
      unfolding in_matches_Maybe by blast
    then show ?thesis
    proof
      assume "(r', k1) = (x1, k)"
      with s(1) k' have "k' = k(i \<mapsto> s @ [])" by simp
      with s(2,3) show ?thesis by blast
    next
      assume "(r', k1) \<in> set (matches ?frac (x1, k))"
      then obtain s2 where s2: "s2 \<in> set (matches (ch 46) (x1, k))"
        and f: "(r', k1) \<in> set (matches (Repeat True 1 None (Pos digit_ranges)) s2)"
        unfolding in_matches_Then by blast
      obtain x2 kb where s2eq: "s2 = (x2, kb)" by (cases s2)
      from s2 have "(x2, kb) \<in> set (matches (Chars (Pos [(46, 46)])) (x1, k))"
        unfolding s2eq ch_def .
      then have kb: "kb = k" and x2: "x1 = 46 # x2"
        unfolding in_matches_Chars by auto
      from f have "(r', k1) \<in> set (matches (Repeat True 1 None (Pos digit_ranges)) (x2, k))"
        unfolding s2eq kb .
      then have "k1 = k" and r: "r' \<in> set (repeat_cs True 1 None (Pos digit_ranges) x2)"
        unfolding in_matches_Repeat by blast+
      from repeat_cs_sound [OF r] obtain f where f0: "x2 = f @ r'"
        "list_all (member_cs (Pos digit_ranges)) f" "1 \<le> length f"
        by blast
      then have f: "x2 = f @ r'" "list_all is_digit f" "f \<noteq> []"
        by (auto simp only: member_digits length_0_conv not_one_le_zero list.size)
      have "x = (s @ 46 # f) @ r'" using s(1) x2 f(1) by simp
      then have "take (length x - length r') x = s @ 46 # f" by simp
      with k' \<open>k1 = k\<close> have "k' = k(i \<mapsto> s @ 46 # f)" by simp
      with s(2,3) f(2,3) show ?thesis by blast
    qed
  qed
qed

lemma number_group_Some:
  "number_group (Some g) \<longleftrightarrow>
     (\<exists>s t. g = s @ t \<and> list_all is_digit s \<and> s \<noteq> [] \<and>
        (t = [] \<or> (\<exists>f. t = 46 # f \<and> list_all is_digit f \<and> f \<noteq> [])))"
proof
  assume n: "number_group (Some g)"
  let ?s = "takeWhile is_digit g" and ?t = "dropWhile is_digit g"
  have "g = ?s @ ?t" by simp
  moreover have "list_all is_digit ?s" by (simp add: list_all_iff) (meson set_takeWhileD)
  moreover from n have "?s \<noteq> []" by (simp add: number_group_def)
  moreover from n have "?t = [] \<or> (\<exists>f. ?t = 46 # f \<and> list_all is_digit f \<and> f \<noteq> [])"
    by (cases ?t) (auto simp: number_group_def)
  ultimately show "\<exists>s t. g = s @ t \<and> list_all is_digit s \<and> s \<noteq> [] \<and>
        (t = [] \<or> (\<exists>f. t = 46 # f \<and> list_all is_digit f \<and> f \<noteq> []))"
    by blast
next
  assume "\<exists>s t. g = s @ t \<and> list_all is_digit s \<and> s \<noteq> [] \<and>
        (t = [] \<or> (\<exists>f. t = 46 # f \<and> list_all is_digit f \<and> f \<noteq> []))"
  then obtain s t where g: "g = s @ t" and s: "list_all is_digit s" "s \<noteq> []"
    and t: "t = [] \<or> (\<exists>f. t = 46 # f \<and> list_all is_digit f \<and> f \<noteq> [])"
    by blast
  from t show "number_group (Some g)"
  proof
    assume "t = []"
    with g s show ?thesis
      by (simp add: number_group_def takeWhile_all dropWhile_all)
  next
    assume "\<exists>f. t = 46 # f \<and> list_all is_digit f \<and> f \<noteq> []"
    then obtain f where "t = 46 # f" "list_all is_digit f" "f \<noteq> []" by blast
    with g s show ?thesis
      by (simp add: number_group_def takeWhile_digits dropWhile_digits)
  qed
qed

lemma number_group_digits: "list_all is_digit d \<Longrightarrow> d \<noteq> [] \<Longrightarrow> number_group (Some d)"
  unfolding number_group_Some by (metis append_Nil2)

lemma Number_group:
  assumes "number_group (Some g)"
  shows "Number (Some g) = Num (reading (Some g))"
proof -
  from assms obtain s t where g: "g = s @ t" and s: "list_all is_digit s" "s \<noteq> []"
    and t: "t = [] \<or> (\<exists>f. t = 46 # f \<and> list_all is_digit f \<and> f \<noteq> [])"
    unfolding number_group_Some by blast
  from t show ?thesis
  proof
    assume "t = []"
    with g s show ?thesis by (simp add: Number_digits)
  next
    assume "\<exists>f. t = 46 # f \<and> list_all is_digit f \<and> f \<noteq> []"
    then obtain f where "t = 46 # f" "list_all is_digit f" "f \<noteq> []" by blast
    with g s show ?thesis by (simp add: Number_fraction)
  qed
qed

lemma Number_or_0_number_group:
  assumes "number_group v"
  shows "Number_or_0 v = Num (reading v)"
proof (cases v)
  case None
  then show ?thesis by (simp add: Number_or_0_def reading_def)
next
  case (Some g)
  with assms have "number_group (Some g)" by simp
  then have n: "Number (Some g) = Num (reading (Some g))" by (rule Number_group)
  from \<open>number_group (Some g)\<close> have "g \<noteq> []" by (auto simp: number_group_def)
  with n Some show ?thesis by (simp add: Number_or_0_def)
qed

text \<open>The hemisphere test \<open>hem.toUpperCase() === 'S'\<close> on a captured letter.\<close>

lemma to_upper_letter:
  "to_upper [h] = js ''S'' \<longleftrightarrow> h = 83 \<or> h = 115"
  "to_upper [h] = js ''W'' \<longleftrightarrow> h = 87 \<or> h = 119"
  by (auto simp: to_upper_def js_def)

text \<open>One axis of the conversion, on captures of the expected shape.\<close>

lemma dmsValue_reading:
  assumes "number_group (k g)" "k g \<noteq> None" "number_group (k (g + 1))" "number_group (k (g + 2))"
    and "k (g + 3) = Some [h]"
  shows "dmsValue k g (js ''S'')
           = Num ((reading (k g) + reading (k (g + 1)) / 60 + reading (k (g + 2)) / 3600) *
                  (if h = 83 \<or> h = 115 then - 1 else 1))"
    and "dmsValue k g (js ''W'')
           = Num ((reading (k g) + reading (k (g + 1)) / 60 + reading (k (g + 2)) / 3600) *
                  (if h = 87 \<or> h = 119 then - 1 else 1))"
proof -
  from assms(2) obtain d where d: "k g = Some d" by auto
  with assms(1) have 1: "Number (k g) = Num (reading (k g))" by (simp add: Number_group)
  note 2 = Number_or_0_number_group [OF assms(3)]
  note 3 = Number_or_0_number_group [OF assms(4)]
  show "dmsValue k g (js ''S'')
           = Num ((reading (k g) + reading (k (g + 1)) / 60 + reading (k (g + 2)) / 3600) *
                  (if h = 83 \<or> h = 115 then - 1 else 1))"
    unfolding dmsValue_def Let_def 1 2 3 assms(5)
    by (simp add: to_upper_letter)
  show "dmsValue k g (js ''W'')
           = Num ((reading (k g) + reading (k (g + 1)) / 60 + reading (k (g + 2)) / 3600) *
                  (if h = 87 \<or> h = 119 then - 1 else 1))"
    unfolding dmsValue_def Let_def 1 2 3 assms(5)
    by (simp add: to_upper_letter)
qed

text \<open>Stepping through a sequence, and the parts that capture nothing.\<close>

lemma then_step:
  assumes "(r', k') \<in> set (matches (Then a b) (x, k))"
  obtains x1 k1 where "(x1, k1) \<in> set (matches a (x, k))" "(r', k') \<in> set (matches b (x1, k1))"
proof -
  from assms obtain s1 where 1: "s1 \<in> set (matches a (x, k))" and 2: "(r', k') \<in> set (matches b s1)"
    unfolding in_matches_Then by blast
  obtain x1 k1 where s1: "s1 = (x1, k1)" by (cases s1)
  from 1 2 have "(x1, k1) \<in> set (matches a (x, k))" "(r', k') \<in> set (matches b (x1, k1))"
    unfolding s1 by blast+
  then show ?thesis by (rule that)
qed

lemma repeat_frame: "(r', k') \<in> set (matches (Repeat g lo hi cs) (x, k)) \<Longrightarrow> k' = k"
  unfolding in_matches_Repeat by blast

lemma chars_frame: "(r', k') \<in> set (matches (Chars cs) (x, k)) \<Longrightarrow> k' = k"
  unfolding in_matches_Chars by blast

text \<open>
  A match of one axis captures the degrees and the minutes as digits, the seconds, if
  any, as digits with or without a fraction, and one hemisphere letter.
\<close>

lemma dmsAxis_match:
  assumes "(r', k') \<in> set (matches (dmsAxis g hemi) (x, k))"
  shows "\<exists>d m h v. list_all is_digit d \<and> d \<noteq> [] \<and> list_all is_digit m \<and> m \<noteq> [] \<and>
           in_ranges h hemi \<and> (v = k (g + 2) \<or> (v \<noteq> None \<and> number_group v)) \<and>
           k' = k(g \<mapsto> d, g + 1 \<mapsto> m, g + 2 := v, g + 3 \<mapsto> [h])"
proof -
  from assms [unfolded dmsAxis_def seq.simps]
  obtain x1 k1 where a1: "(x1, k1) \<in> set (matches (Capture g (Repeat True 1 (Some 3) (Pos digit_ranges))) (x, k))"
    and t1: "(r', k') \<in> set (matches
      (Then (Repeat True 1 None (Pos ((176, 176) # ws_ranges)))
      (Then (Capture (g + 1) (Repeat True 1 (Some 2) (Pos digit_ranges)))
      (Then (Chars (Pos [(8242, 8242), (39, 39)]))
      (Then (Repeat True 0 None (Pos ws_ranges))
      (Then (Maybe (Capture (g + 2)
                (Then (Repeat True 1 (Some 2) (Pos digit_ranges))
                      (Maybe (Then (ch 46) (Repeat True 1 None (Pos digit_ranges)))))))
      (Then (Repeat True 0 (Some 1) (Pos [(8243, 8243), (34, 34)]))
      (Then (Repeat True 0 None (Pos ws_ranges))
            (Capture (g + 3) (Chars (Pos hemi)))))))))) (x1, k1))"
    by (rule then_step)
  from t1 obtain x2 k2 where a2: "(x2, k2) \<in> set (matches (Repeat True 1 None (Pos ((176, 176) # ws_ranges))) (x1, k1))"
    and t2: "(r', k') \<in> set (matches
      (Then (Capture (g + 1) (Repeat True 1 (Some 2) (Pos digit_ranges)))
      (Then (Chars (Pos [(8242, 8242), (39, 39)]))
      (Then (Repeat True 0 None (Pos ws_ranges))
      (Then (Maybe (Capture (g + 2)
                (Then (Repeat True 1 (Some 2) (Pos digit_ranges))
                      (Maybe (Then (ch 46) (Repeat True 1 None (Pos digit_ranges)))))))
      (Then (Repeat True 0 (Some 1) (Pos [(8243, 8243), (34, 34)]))
      (Then (Repeat True 0 None (Pos ws_ranges))
            (Capture (g + 3) (Chars (Pos hemi))))))))) (x2, k2))"
    by (rule then_step)
  from t2 obtain x3 k3 where a3: "(x3, k3) \<in> set (matches (Capture (g + 1) (Repeat True 1 (Some 2) (Pos digit_ranges))) (x2, k2))"
    and t3: "(r', k') \<in> set (matches
      (Then (Chars (Pos [(8242, 8242), (39, 39)]))
      (Then (Repeat True 0 None (Pos ws_ranges))
      (Then (Maybe (Capture (g + 2)
                (Then (Repeat True 1 (Some 2) (Pos digit_ranges))
                      (Maybe (Then (ch 46) (Repeat True 1 None (Pos digit_ranges)))))))
      (Then (Repeat True 0 (Some 1) (Pos [(8243, 8243), (34, 34)]))
      (Then (Repeat True 0 None (Pos ws_ranges))
            (Capture (g + 3) (Chars (Pos hemi)))))))) (x3, k3))"
    by (rule then_step)
  from t3 obtain x4 k4 where a4: "(x4, k4) \<in> set (matches (Chars (Pos [(8242, 8242), (39, 39)])) (x3, k3))"
    and t4: "(r', k') \<in> set (matches
      (Then (Repeat True 0 None (Pos ws_ranges))
      (Then (Maybe (Capture (g + 2)
                (Then (Repeat True 1 (Some 2) (Pos digit_ranges))
                      (Maybe (Then (ch 46) (Repeat True 1 None (Pos digit_ranges)))))))
      (Then (Repeat True 0 (Some 1) (Pos [(8243, 8243), (34, 34)]))
      (Then (Repeat True 0 None (Pos ws_ranges))
            (Capture (g + 3) (Chars (Pos hemi))))))) (x4, k4))"
    by (rule then_step)
  from t4 obtain x5 k5 where a5: "(x5, k5) \<in> set (matches (Repeat True 0 None (Pos ws_ranges)) (x4, k4))"
    and t5: "(r', k') \<in> set (matches
      (Then (Maybe (Capture (g + 2)
                (Then (Repeat True 1 (Some 2) (Pos digit_ranges))
                      (Maybe (Then (ch 46) (Repeat True 1 None (Pos digit_ranges)))))))
      (Then (Repeat True 0 (Some 1) (Pos [(8243, 8243), (34, 34)]))
      (Then (Repeat True 0 None (Pos ws_ranges))
            (Capture (g + 3) (Chars (Pos hemi)))))) (x5, k5))"
    by (rule then_step)
  from t5 obtain x6 k6 where a6: "(x6, k6) \<in> set (matches
      (Maybe (Capture (g + 2)
                (Then (Repeat True 1 (Some 2) (Pos digit_ranges))
                      (Maybe (Then (ch 46) (Repeat True 1 None (Pos digit_ranges))))))) (x5, k5))"
    and t6: "(r', k') \<in> set (matches
      (Then (Repeat True 0 (Some 1) (Pos [(8243, 8243), (34, 34)]))
      (Then (Repeat True 0 None (Pos ws_ranges))
            (Capture (g + 3) (Chars (Pos hemi))))) (x6, k6))"
    by (rule then_step)
  from t6 obtain x7 k7 where a7: "(x7, k7) \<in> set (matches (Repeat True 0 (Some 1) (Pos [(8243, 8243), (34, 34)])) (x6, k6))"
    and t7: "(r', k') \<in> set (matches
      (Then (Repeat True 0 None (Pos ws_ranges))
            (Capture (g + 3) (Chars (Pos hemi)))) (x7, k7))"
    by (rule then_step)
  from t7 obtain x8 k8 where a8: "(x8, k8) \<in> set (matches (Repeat True 0 None (Pos ws_ranges)) (x7, k7))"
    and a9: "(r', k') \<in> set (matches (Capture (g + 3) (Chars (Pos hemi))) (x8, k8))"
    by (rule then_step)
  from capture_digits [OF a1] obtain d where d: "k1 = k(g \<mapsto> d)" "list_all is_digit d" "1 \<le> length d"
    by blast
  from capture_digits [OF a3] obtain m where m: "k3 = k2(g + 1 \<mapsto> m)" "list_all is_digit m" "1 \<le> length m"
    by blast
  from capture_letter [OF a9] obtain h where h: "k' = k8(g + 3 \<mapsto> [h])" "in_ranges h hemi"
    by blast
  note f = repeat_frame [OF a2] chars_frame [OF a4] repeat_frame [OF a5] repeat_frame [OF a7]
    repeat_frame [OF a8]
  from d(3) m(3) have ne: "d \<noteq> []" "m \<noteq> []" by auto
  have k5: "k5 = k(g \<mapsto> d, g + 1 \<mapsto> m)" using f d(1) m(1) by simp
  from capture_seconds [OF a6]
  have "k6 = k5 \<or> (\<exists>v. v \<noteq> None \<and> number_group v \<and> k6 = k5(g + 2 := v))"
  proof
    assume "k6 = k5"
    then show ?thesis by simp
  next
    assume "\<exists>s t. k6 = k5(g + 2 \<mapsto> s @ t) \<and> list_all is_digit s \<and> s \<noteq> [] \<and>
           (t = [] \<or> (\<exists>f. t = 46 # f \<and> list_all is_digit f \<and> f \<noteq> []))"
    then obtain s t where st: "k6 = k5(g + 2 \<mapsto> s @ t)" "list_all is_digit s \<and> s \<noteq> [] \<and>
           (t = [] \<or> (\<exists>f. t = 46 # f \<and> list_all is_digit f \<and> f \<noteq> []))"
      by blast
    from st(2) have "number_group (Some (s @ t))" unfolding number_group_Some by blast
    with st(1) show ?thesis by blast
  qed
  then obtain v where v: "v = k (g + 2) \<or> (v \<noteq> None \<and> number_group v)" "k6 = k5(g + 2 := v)"
  proof
    assume "k6 = k5"
    then have "k6 = k5(g + 2 := k (g + 2))" using k5 by (simp add: fun_upd_idem)
    then show ?thesis using that by blast
  next
    assume "\<exists>v. v \<noteq> None \<and> number_group v \<and> k6 = k5(g + 2 := v)"
    then show ?thesis using that by blast
  qed
  have "k' = k(g \<mapsto> d, g + 1 \<mapsto> m, g + 2 := v, g + 3 \<mapsto> [h])"
    using h(1) f v(2) k5 by simp
  with d(2) m(2) ne h(2) v(1) show ?thesis by blast
qed

text \<open>What a match of the whole pattern has captured.\<close>

lemma dmsPattern_match:
  assumes "(r', k') \<in> set (matches dmsPattern (y, Map.empty))"
  shows "\<exists>h1 h2.
           number_group (k' 1) \<and> k' 1 \<noteq> None \<and> number_group (k' 2) \<and> k' 2 \<noteq> None \<and>
           number_group (k' 3) \<and> k' 4 = Some [h1] \<and>
           in_ranges h1 [(78, 78), (110, 110), (83, 83), (115, 115)] \<and>
           number_group (k' 5) \<and> k' 5 \<noteq> None \<and> number_group (k' 6) \<and> k' 6 \<noteq> None \<and>
           number_group (k' 7) \<and> k' 8 = Some [h2] \<and>
           in_ranges h2 [(69, 69), (101, 101), (87, 87), (119, 119)]"
proof -
  from assms [unfolded dmsPattern_def seq.simps]
  obtain x1 k1 where a1: "(x1, k1) \<in> set (matches
       (dmsAxis 1 [(78, 78), (110, 110), (83, 83), (115, 115)]) (y, Map.empty))"
    and t1: "(r', k') \<in> set (matches
      (Then (Repeat True 0 None (Pos ws_ranges))
      (Then (Repeat True 0 (Some 1) (Pos [(44, 44)]))
      (Then (Repeat True 0 None (Pos ws_ranges))
            (dmsAxis 5 [(69, 69), (101, 101), (87, 87), (119, 119)])))) (x1, k1))"
    by (rule then_step)
  from t1 obtain x2 k2 where a2: "(x2, k2) \<in> set (matches (Repeat True 0 None (Pos ws_ranges)) (x1, k1))"
    and t2: "(r', k') \<in> set (matches
      (Then (Repeat True 0 (Some 1) (Pos [(44, 44)]))
      (Then (Repeat True 0 None (Pos ws_ranges))
            (dmsAxis 5 [(69, 69), (101, 101), (87, 87), (119, 119)]))) (x2, k2))"
    by (rule then_step)
  from t2 obtain x3 k3 where a3: "(x3, k3) \<in> set (matches (Repeat True 0 (Some 1) (Pos [(44, 44)])) (x2, k2))"
    and t3: "(r', k') \<in> set (matches
      (Then (Repeat True 0 None (Pos ws_ranges))
            (dmsAxis 5 [(69, 69), (101, 101), (87, 87), (119, 119)])) (x3, k3))"
    by (rule then_step)
  from t3 obtain x4 k4 where a4: "(x4, k4) \<in> set (matches (Repeat True 0 None (Pos ws_ranges)) (x3, k3))"
    and a5: "(r', k') \<in> set (matches
       (dmsAxis 5 [(69, 69), (101, 101), (87, 87), (119, 119)]) (x4, k4))"
    by (rule then_step)
  note f = repeat_frame [OF a2] repeat_frame [OF a3] repeat_frame [OF a4]
  from dmsAxis_match [OF a1] obtain d1 m1 h1 v1 where 1:
    "list_all is_digit d1" "d1 \<noteq> []" "list_all is_digit m1" "m1 \<noteq> []"
    "in_ranges h1 [(78, 78), (110, 110), (83, 83), (115, 115)]"
    "v1 = Map.empty (1 + 2) \<or> (v1 \<noteq> None \<and> number_group v1)"
    "k1 = Map.empty(1 \<mapsto> d1, 1 + 1 \<mapsto> m1, 1 + 2 := v1, 1 + 3 \<mapsto> [h1])"
    by blast
  from dmsAxis_match [OF a5] obtain d2 m2 h2 v2 where 2:
    "list_all is_digit d2" "d2 \<noteq> []" "list_all is_digit m2" "m2 \<noteq> []"
    "in_ranges h2 [(69, 69), (101, 101), (87, 87), (119, 119)]"
    "v2 = k4 (5 + 2) \<or> (v2 \<noteq> None \<and> number_group v2)"
    "k' = k4(5 \<mapsto> d2, 5 + 1 \<mapsto> m2, 5 + 2 := v2, 5 + 3 \<mapsto> [h2])"
    by blast
  have n1: "number_group v1" using 1(6) by (auto simp: number_group_def)
  have k4: "k4 = k1" using f by simp
  have "k1 (5 + 2) = None" unfolding 1(7) by simp
  then have n2: "number_group v2" using 2(6) k4 by (auto simp: number_group_def)
  have g: "number_group (Some d1)" "number_group (Some m1)" "number_group (Some d2)"
    "number_group (Some m2)"
    using 1(1-4) 2(1-4) by (simp_all add: number_group_digits)
  have "number_group (k' 1) \<and> k' 1 \<noteq> None \<and> number_group (k' 2) \<and> k' 2 \<noteq> None \<and>
           number_group (k' 3) \<and> k' 4 = Some [h1] \<and>
           number_group (k' 5) \<and> k' 5 \<noteq> None \<and> number_group (k' 6) \<and> k' 6 \<noteq> None \<and>
           number_group (k' 7) \<and> k' 8 = Some [h2]"
    unfolding 2(7) k4 1(7) using n1 n2 g by simp
  with 1(5) 2(5) show ?thesis by blast
qed

text \<open>
  Claim C7, as amended. For every text on which the decimal pattern does not match and
  the degrees-minutes-seconds pattern does, the captured degrees and minutes are digits,
  the captured seconds are digits with or without a fraction or are absent, the
  hemispheres are one letter each, and the parsed latitude and longitude are
  degrees + minutes / 60 + seconds / 3600, absent seconds counting 0, negated exactly
  for the letters S or s (latitude) and W or w (longitude).
\<close>

theorem C7_dms_conversion:
  "\<not> test decPattern text \<and> test dmsPattern text \<longrightarrow>
     (\<exists>rest k h1 h2.
        search dmsPattern text = Some (rest, k) \<and>
        number_group (k 1) \<and> k 1 \<noteq> None \<and> number_group (k 2) \<and> k 2 \<noteq> None \<and>
        number_group (k 3) \<and> k 4 = Some [h1] \<and>
        in_ranges h1 [(78, 78), (110, 110), (83, 83), (115, 115)] \<and>
        number_group (k 5) \<and> k 5 \<noteq> None \<and> number_group (k 6) \<and> k 6 \<noteq> None \<and>
        number_group (k 7) \<and> k 8 = Some [h2] \<and>
        in_ranges h2 [(69, 69), (101, 101), (87, 87), (119, 119)] \<and>
        tryParseCoordinates text
          = Some (Coords
              (Num ((reading (k 1) + reading (k 2) / 60 + reading (k 3) / 3600) *
                    (if h1 = 83 \<or> h1 = 115 then - 1 else 1)))
              (Num ((reading (k 5) + reading (k 6) / 60 + reading (k 7) / 3600) *
                    (if h2 = 87 \<or> h2 = 119 then - 1 else 1)))))"
proof
  assume h: "\<not> test decPattern text \<and> test dmsPattern text"
  then have nd: "search decPattern text = None" unfolding test_def by blast
  from h obtain rest k where s: "search dmsPattern text = Some (rest, k)"
    by (auto simp: test_search)
  from search_sound [OF s] obtain pre y where "(rest, k) \<in> set (matches dmsPattern (y, Map.empty))"
    by blast
  from dmsPattern_match [OF this] obtain h1 h2 where m:
    "number_group (k 1)" "k 1 \<noteq> None" "number_group (k 2)" "k 2 \<noteq> None"
    "number_group (k 3)" "k 4 = Some [h1]"
    "in_ranges h1 [(78, 78), (110, 110), (83, 83), (115, 115)]"
    "number_group (k 5)" "k 5 \<noteq> None" "number_group (k 6)" "k 6 \<noteq> None"
    "number_group (k 7)" "k 8 = Some [h2]"
    "in_ranges h2 [(69, 69), (101, 101), (87, 87), (119, 119)]"
    by blast
  have e: "(1::nat) + 1 = 2" "(1::nat) + 2 = 3" "(1::nat) + 3 = 4"
    "(5::nat) + 1 = 6" "(5::nat) + 2 = 7" "(5::nat) + 3 = 8"
    by simp_all
  have lat: "dmsValue k 1 (js ''S'')
               = Num ((reading (k 1) + reading (k 2) / 60 + reading (k 3) / 3600) *
                      (if h1 = 83 \<or> h1 = 115 then - 1 else 1))"
    by (rule dmsValue_reading(1) [of k 1 h1, unfolded e, OF m(1) m(2) m(3) m(5) m(6)])
  have lon: "dmsValue k 5 (js ''W'')
               = Num ((reading (k 5) + reading (k 6) / 60 + reading (k 7) / 3600) *
                      (if h2 = 87 \<or> h2 = 119 then - 1 else 1))"
    by (rule dmsValue_reading(2) [of k 5 h2, unfolded e, OF m(8) m(9) m(10) m(12) m(13)])
  have r: "tryParseCoordinates text
          = Some (Coords
              (Num ((reading (k 1) + reading (k 2) / 60 + reading (k 3) / 3600) *
                    (if h1 = 83 \<or> h1 = 115 then - 1 else 1)))
              (Num ((reading (k 5) + reading (k 6) / 60 + reading (k 7) / 3600) *
                    (if h2 = 87 \<or> h2 = 119 then - 1 else 1))))"
    unfolding tryParseCoordinates_def Let_def nd s by (simp add: lat lon del: One_nat_def)
  from s m r show "\<exists>rest k h1 h2.
        search dmsPattern text = Some (rest, k) \<and>
        number_group (k 1) \<and> k 1 \<noteq> None \<and> number_group (k 2) \<and> k 2 \<noteq> None \<and>
        number_group (k 3) \<and> k 4 = Some [h1] \<and>
        in_ranges h1 [(78, 78), (110, 110), (83, 83), (115, 115)] \<and>
        number_group (k 5) \<and> k 5 \<noteq> None \<and> number_group (k 6) \<and> k 6 \<noteq> None \<and>
        number_group (k 7) \<and> k 8 = Some [h2] \<and>
        in_ranges h2 [(69, 69), (101, 101), (87, 87), (119, 119)] \<and>
        tryParseCoordinates text
          = Some (Coords
              (Num ((reading (k 1) + reading (k 2) / 60 + reading (k 3) / 3600) *
                    (if h1 = 83 \<or> h1 = 115 then - 1 else 1)))
              (Num ((reading (k 5) + reading (k 6) / 60 + reading (k 7) / 3600) *
                    (if h2 = 87 \<or> h2 = 119 then - 1 else 1))))"
    by blast
qed

text \<open>
  The text \<open>text_dms\<close> is parsed to the latitude 37 + 46/60 + 29/3600 and the longitude
  -(122 + 25/60 + 10/3600).
\<close>

theorem C7_dms_conversion_witness:
  "\<not> test decPattern text_dms \<and> test dmsPattern text_dms \<and>
   tryParseCoordinates text_dms
     = Some (Coords (Num (37 + 46 / 60 + 29 / 3600)) (Num (- (122 + 25 / 60 + 10 / 3600))))"
  using C7_dms_conversion [of text_dms]
  by (simp add: text_dms_def tryParseCoordinates_def char_defs pattern_defs string_defs
      number_defs)

text \<open>
  The text \<open>text_both\<close> matches the degrees-minutes-seconds pattern, and the parser
  returns the pair of decimal numbers that stands before.
\<close>

theorem C7_decimal_pair_wins:
  "test dmsPattern text_both \<and>
   tryParseCoordinates text_both = Some (Coords (Num (3 / 2)) (Num (5 / 2))) \<and>
   tryParseCoordinates text_both
     \<noteq> Some (Coords (Num (37 + 46 / 60 + 29 / 3600)) (Num (- (122 + 25 / 60 + 10 / 3600))))"
  by (simp add: text_both_def text_dms_def tryParseCoordinates_def char_defs pattern_defs
      string_defs number_defs)

end
